theory Spec2Isabelle
  imports Main "HOL-Library.AList" "HOL-Library.Multiset"
begin

section \<open>Strings as the extractor uses them\<close>

text \<open>
  Python strings are modelled as \<open>string\<close> (lists of \<open>char\<close>). The model covers ASCII
  text: the character classes \<open>\w\<close>, \<open>\d\<close> and the whitespace of \<open>str.strip\<close> are the
  ASCII ones. The only non-ASCII character the extractor itself writes is the bullet
  of a flattened list, kept here as the three bytes of its UTF-8 encoding.
\<close>

definition nl :: char where
  "nl = CHR 0x0A"

definition star :: char where
  "star = CHR ''*''"

definition bullet :: string where
  "bullet = [CHR 0xE2, CHR 0x80, CHR 0xA2]"

definition is_digit :: "char \<Rightarrow> bool" where
  "is_digit c = (c \<in> set ''0123456789'')"

definition is_lower :: "char \<Rightarrow> bool" where
  "is_lower c = (c \<in> set ''abcdefghijklmnopqrstuvwxyz'')"

definition is_upper :: "char \<Rightarrow> bool" where
  "is_upper c = (c \<in> set ''ABCDEFGHIJKLMNOPQRSTUVWXYZ'')"

text \<open>\<open>\w\<close>: letters, digits and the underscore.\<close>

definition is_word :: "char \<Rightarrow> bool" where
  "is_word c = (is_lower c \<or> is_upper c \<or> is_digit c \<or> c = CHR ''_'')"

text \<open>The characters \<open>str.strip()\<close> removes: space, tab, LF, VT, FF, CR, FS, GS, RS, US.\<close>

definition is_space :: "char \<Rightarrow> bool" where
  "is_space c = (c \<in> set [CHR '' '', CHR 0x09, CHR 0x0A, CHR 0x0B, CHR 0x0C, CHR 0x0D,
                            CHR 0x1C, CHR 0x1D, CHR 0x1E, CHR 0x1F])"

definition to_upper :: "char \<Rightarrow> char" where
  "to_upper c =
     (case map_of (zip ''abcdefghijklmnopqrstuvwxyz'' ''ABCDEFGHIJKLMNOPQRSTUVWXYZ'') c of
        Some u \<Rightarrow> u
      | None \<Rightarrow> c)"

definition to_lower :: "char \<Rightarrow> char" where
  "to_lower c =
     (case map_of (zip ''ABCDEFGHIJKLMNOPQRSTUVWXYZ'' ''abcdefghijklmnopqrstuvwxyz'') c of
        Some l \<Rightarrow> l
      | None \<Rightarrow> c)"

text \<open>\<open>s.startswith(p)\<close>.\<close>

definition starts_with :: "string \<Rightarrow> string \<Rightarrow> bool" where
  "starts_with p s = (take (length p) s = p)"

text \<open>\<open>sub in s\<close> for strings: \<open>sub\<close> occurs in \<open>s\<close> as a contiguous run.\<close>

fun contains :: "string \<Rightarrow> string \<Rightarrow> bool" where
  "contains sub [] = (sub = [])"
| "contains sub (c # cs) = (starts_with sub (c # cs) \<or> contains sub cs)"

text \<open>\<open>s.strip()\<close>.\<close>

definition py_strip :: "string \<Rightarrow> string" where
  "py_strip s = rev (dropWhile is_space (rev (dropWhile is_space s)))"

text \<open>
  \<open>s.title()\<close>: a letter that follows a letter is lowercased, any other letter is
  uppercased; the flag records whether the previous character was a letter.
\<close>

fun title_from :: "bool \<Rightarrow> string \<Rightarrow> string" where
  "title_from prev [] = []"
| "title_from prev (c # cs) =
     (if is_lower c \<or> is_upper c
      then (if prev then to_lower c else to_upper c) # title_from True cs
      else c # title_from False cs)"

definition py_title :: "string \<Rightarrow> string" where
  "py_title s = title_from False s"

text \<open>\<open>sep.join(xs)\<close>.\<close>

fun py_join :: "string \<Rightarrow> string list \<Rightarrow> string" where
  "py_join sep [] = []"
| "py_join sep [x] = x"
| "py_join sep (x # y # ys) = x @ sep @ py_join sep (y # ys)"

text \<open>
  \<open>s.split(c)\<close> for a single-character separator; \<open>split(c)[0]\<close> is the head of the
  result, \<open>split(c)[1]\<close> its second element.
\<close>

fun split_chr :: "char \<Rightarrow> string \<Rightarrow> string list" where
  "split_chr c [] = [[]]"
| "split_chr c (x # xs) =
     (if x = c then [] # split_chr c xs
      else (case split_chr c xs of
              [] \<Rightarrow> [[x]]
            | w # ws \<Rightarrow> (x # w) # ws))"

text \<open>
  \<open>s.replace(old, new)\<close> for a non-empty \<open>old\<close>: occurrences are replaced from the
  left, without overlap. The counter is the number of characters of a found
  occurrence still to be skipped.
\<close>

fun replace_from :: "nat \<Rightarrow> string \<Rightarrow> string \<Rightarrow> string \<Rightarrow> string" where
  "replace_from k old new [] = []"
| "replace_from (Suc k) old new (c # cs) = replace_from k old new cs"
| "replace_from 0 old new (c # cs) =
     (if starts_with old (c # cs) then new @ replace_from (length old - 1) old new cs
      else c # replace_from 0 old new cs)"

definition py_replace :: "string \<Rightarrow> string \<Rightarrow> string \<Rightarrow> string" where
  "py_replace old new s = replace_from 0 old new s"

subsection \<open>Decimal numbers\<close>

definition digit_val :: "char \<Rightarrow> nat" where
  "digit_val c = of_char c - 48"

definition digit_chr :: "nat \<Rightarrow> char" where
  "digit_chr n = ''0123456789'' ! n"

text \<open>\<open>int(s)\<close> on a string of decimal digits.\<close>

definition nat_of_digits :: "string \<Rightarrow> nat" where
  "nat_of_digits s = foldl (\<lambda>acc c. 10 * acc + digit_val c) 0 s"

text \<open>\<open>str(n)\<close> for a natural number.\<close>

fun str_nat :: "nat \<Rightarrow> string" where
  "str_nat n = (if n < 10 then [digit_chr n] else str_nat (n div 10) @ [digit_chr (n mod 10)])"

declare str_nat.simps [simp del]

section \<open>The compiled patterns\<close>

text \<open>
  Each pattern of \<open>SRD_5_Extractor.__init__\<close> is a function that tries the pattern at
  the start of a text and returns the length of the match and its groups. The
  patterns are matched as Python's backtracking matcher does: a greedy item takes as
  much as it can and gives characters back only when what follows cannot match.
  Where a shorter choice can never help (the character given back could not start
  what follows), only the greedy choice is written.
\<close>

text \<open>
  \<open>pattern.search(s, pos)\<close>: the pattern is tried at \<open>pos\<close>, \<open>pos + 1\<close>, ... up to the
  end of the text; the first position that matches gives the result. The result is
  \<open>match.end()\<close> (an offset into the whole text) and the groups.
\<close>

fun scan :: "(string \<Rightarrow> (nat \<times> 'g) option) \<Rightarrow> nat \<Rightarrow> string \<Rightarrow> (nat \<times> 'g) option" where
  "scan m i [] = (case m [] of Some (n, g) \<Rightarrow> Some (i + n, g) | None \<Rightarrow> None)"
| "scan m i (c # cs) =
     (case m (c # cs) of
        Some (n, g) \<Rightarrow> Some (i + n, g)
      | None \<Rightarrow> scan m (Suc i) cs)"

definition re_search :: "(string \<Rightarrow> (nat \<times> 'g) option) \<Rightarrow> string \<Rightarrow> nat \<Rightarrow> (nat \<times> 'g) option" where
  "re_search m s pos = scan m (min pos (length s)) (drop pos s)"

text \<open>An optional single character \<open>c?\<close>: taken when it is there.\<close>

definition opt_chr :: "char \<Rightarrow> string \<Rightarrow> string" where
  "opt_chr c s = (if starts_with [c] s then drop 1 s else s)"

text \<open>
  The tail \<open>( \(ritual\))?\*\<close> shared by the two level patterns: the length matched
  and the optional group.
\<close>

definition ritual_tail :: "string \<Rightarrow> (nat \<times> string option) option" where
  "ritual_tail s =
     (if starts_with '' (ritual)*'' s then Some (10, Some '' (ritual)'')
      else if starts_with ''*'' s then Some (1, None)
      else None)"

text \<open>\<open>re_cantrip_school_ritual = \*(\w+) cantrip( \(ritual\))?\*\<close>; groups 1 and 2.\<close>

definition m_cantrip_school_ritual :: "string \<Rightarrow> (nat \<times> string \<times> string option) option" where
  "m_cantrip_school_ritual s =
     (if starts_with ''*'' s then
        (let w = takeWhile is_word (drop 1 s); r = dropWhile is_word (drop 1 s) in
         if w \<noteq> [] \<and> starts_with '' cantrip'' r then
           (case ritual_tail (drop 8 r) of
              Some (n, rit) \<Rightarrow> Some (1 + length w + 8 + n, w, rit)
            | None \<Rightarrow> None)
         else None)
      else None)"

text \<open>\<open>re_lvl_school_ritual = \*(\d)\w\w-level (\w+)( \(ritual\))?\*\<close>; groups 1, 2 and 3.\<close>

definition m_lvl_school_ritual :: "string \<Rightarrow> (nat \<times> string \<times> string \<times> string option) option" where
  "m_lvl_school_ritual s =
     (case s of
        a # d # x # y # r \<Rightarrow>
          (if a = CHR ''*'' \<and> is_digit d \<and> is_word x \<and> is_word y \<and> starts_with ''-level '' r then
             (let w = takeWhile is_word (drop 7 r); r' = dropWhile is_word (drop 7 r) in
              if w \<noteq> [] then
                (case ritual_tail r' of
                   Some (n, rit) \<Rightarrow> Some (4 + 7 + length w + n, [d], w, rit)
                 | None \<Rightarrow> None)
              else None)
           else None)
      | _ \<Rightarrow> None)"

text \<open>
  The group \<open>((?:(?!STOP|\n).)+)\<close>: characters are taken as long as the text at that
  point neither starts with \<open>STOP\<close> nor is a line break.
\<close>

fun tempered :: "string \<Rightarrow> string \<Rightarrow> string" where
  "tempered stop [] = []"
| "tempered stop (c # cs) =
     (if starts_with stop (c # cs) \<or> c = nl then [] else c # tempered stop cs)"

text \<open>A label followed by a non-empty group; the group is group 1.\<close>

definition labelled :: "nat \<Rightarrow> string \<Rightarrow> (nat \<times> string) option" where
  "labelled n g = (if g = [] then None else Some (n + length g, g))"

text \<open>\<open>re_casting_time = \*\*Casting Time:\*\* ((?:(?!\*\*Range|\n).)+)\<close>.\<close>

definition m_casting_time :: "string \<Rightarrow> (nat \<times> string) option" where
  "m_casting_time s =
     (if starts_with ''**Casting Time:** '' s
      then labelled 18 (tempered ''**Range'' (drop 18 s))
      else None)"

text \<open>\<open>re_range = \*\*Range:\*\* ((?:(?!\*\*Component|\n).)+)\<close>.\<close>

definition m_range :: "string \<Rightarrow> (nat \<times> string) option" where
  "m_range s =
     (if starts_with ''**Range:** '' s
      then labelled 11 (tempered ''**Component'' (drop 11 s))
      else None)"

text \<open>\<open>re_components = \*\*Components?:?\*\*:? ((?:(?!\*\*Duration|\n).)+)\<close>.\<close>

definition m_components :: "string \<Rightarrow> (nat \<times> string) option" where
  "m_components s =
     (if starts_with ''**Component'' s then
        (let r1 = opt_chr CHR '':'' (opt_chr CHR ''s'' (drop 11 s)) in
         if starts_with ''**'' r1 then
           (let r2 = opt_chr CHR '':'' (drop 2 r1) in
            if starts_with '' '' r2
            then labelled (length s - length (drop 1 r2)) (tempered ''**Duration'' (drop 1 r2))
            else None)
         else None)
      else None)"

text \<open>\<open>re_duration = \*\*Duration:\*\* ([^\n]+)\<close>.\<close>

definition m_duration :: "string \<Rightarrow> (nat \<times> string) option" where
  "m_duration s =
     (if starts_with ''**Duration:** '' s
      then labelled 14 (takeWhile (\<lambda>c. c \<noteq> nl) (drop 14 s))
      else None)"

text \<open>
  \<open>\b\<close> between a previous character (none at the start of the text) and the rest of
  the text: exactly one of the two neighbours is a word character.
\<close>

definition word_before :: "char option \<Rightarrow> bool" where
  "word_before prev = (case prev of None \<Rightarrow> False | Some c \<Rightarrow> is_word c)"

definition word_next :: "string \<Rightarrow> bool" where
  "word_next s = (case s of [] \<Rightarrow> False | c # _ \<Rightarrow> is_word c)"

definition boundary :: "char option \<Rightarrow> string \<Rightarrow> bool" where
  "boundary prev s = (word_before prev \<noteq> word_next s)"

text \<open>
  \<open>re_mat_cost = \b(\d+(?:,\d{3})?) ?gp\b\<close>, tried after the character \<open>prev\<close>; group 1.
\<close>

definition comma_group :: "string \<Rightarrow> bool" where
  "comma_group s =
     (case s of
        a # x # y # z # _ \<Rightarrow> a = CHR '','' \<and> is_digit x \<and> is_digit y \<and> is_digit z
      | _ \<Rightarrow> False)"

definition m_mat_cost :: "char option \<Rightarrow> string \<Rightarrow> (nat \<times> string) option" where
  "m_mat_cost prev s =
     (let d = takeWhile is_digit s; r = dropWhile is_digit s in
      if boundary prev s \<and> d \<noteq> [] then
        (let g = (if comma_group r then d @ take 4 r else d);
             r1 = opt_chr CHR '' '' (drop (length g) s) in
         if starts_with ''gp'' r1 \<and> boundary (Some CHR ''p'') (drop 2 r1)
         then Some (length s - length (drop 2 r1), g)
         else None)
      else None)"

text \<open>
  \<open>re_mat_cost.finditer(s)\<close>: the groups 1 of the matches found from left to right,
  without overlap. The counter is the number of characters of the last match still
  to be passed before the pattern is tried again.
\<close>

fun mat_cost_from :: "nat \<Rightarrow> char option \<Rightarrow> string \<Rightarrow> string list" where
  "mat_cost_from k prev [] = []"
| "mat_cost_from (Suc k) prev (c # cs) = mat_cost_from k (Some c) cs"
| "mat_cost_from 0 prev (c # cs) =
     (case m_mat_cost prev (c # cs) of
        Some (n, g) \<Rightarrow> g # mat_cost_from (n - 1) (Some c) cs
      | None \<Rightarrow> mat_cost_from 0 (Some c) cs)"

definition mat_cost_finditer :: "string \<Rightarrow> string list" where
  "mat_cost_finditer s = mat_cost_from 0 None s"

text \<open>
  \<open>re_conc_dur = \bConcentration,? up to ([^\n]+)\b\<close>. The greedy group takes the
  rest of the line and gives characters back, one at a time, until a word boundary
  follows it: \<open>end_at_boundary k r\<close> tries the lengths \<open>k\<close>, \<open>k - 1\<close>, ..., 1.
\<close>

fun end_at_boundary :: "nat \<Rightarrow> string \<Rightarrow> string option" where
  "end_at_boundary 0 r = None"
| "end_at_boundary (Suc k) r =
     (if boundary (Some (r ! k)) (drop (Suc k) r) then Some (take (Suc k) r)
      else end_at_boundary k r)"

definition m_conc_dur :: "char option \<Rightarrow> string \<Rightarrow> (nat \<times> string) option" where
  "m_conc_dur prev s =
     (if boundary prev s \<and> starts_with ''Concentration'' s then
        (let r = opt_chr CHR '','' (drop 13 s) in
         if starts_with '' up to '' r then
           (case end_at_boundary (length (takeWhile (\<lambda>c. c \<noteq> nl) (drop 7 r))) (drop 7 r) of
              Some g \<Rightarrow> Some (length s - length (drop 7 r) + length g, g)
            | None \<Rightarrow> None)
         else None)
      else None)"

fun scan_prev :: "(char option \<Rightarrow> string \<Rightarrow> (nat \<times> 'g) option) \<Rightarrow> nat \<Rightarrow> char option \<Rightarrow> string
    \<Rightarrow> (nat \<times> 'g) option" where
  "scan_prev m i prev [] = (case m prev [] of Some (n, g) \<Rightarrow> Some (i + n, g) | None \<Rightarrow> None)"
| "scan_prev m i prev (c # cs) =
     (case m prev (c # cs) of
        Some (n, g) \<Rightarrow> Some (i + n, g)
      | None \<Rightarrow> scan_prev m (Suc i) (Some c) cs)"

definition conc_dur_search :: "string \<Rightarrow> (nat \<times> string) option" where
  "conc_dur_search s = scan_prev m_conc_dur 0 None s"

text \<open>
  \<open>re_rules_formatted = (\*{1,3})([^*\n]+)\1\<close>. \<open>rules_try k s\<close> is the attempt with
  \<open>k\<close> emphasis characters in group 1: group 2 is the run of characters that are
  neither an emphasis character nor a line break, and the same \<open>k\<close> characters must
  follow it. The greedy \<open>\*{1,3}\<close> tries three, then two, then one. The result is the
  length of the match and group 2.
\<close>

definition rules_try :: "nat \<Rightarrow> string \<Rightarrow> (nat \<times> string) option" where
  "rules_try k s =
     (let body = takeWhile (\<lambda>c. c \<noteq> star \<and> c \<noteq> nl) (drop k s) in
      if take k s = replicate k star \<and> body \<noteq> []
         \<and> take k (drop (k + length body) s) = replicate k star
      then Some (k + length body + k, body)
      else None)"

definition m_rules_formatted :: "string \<Rightarrow> (nat \<times> string) option" where
  "m_rules_formatted s =
     (case rules_try 3 s of
        Some r \<Rightarrow> Some r
      | None \<Rightarrow> (case rules_try 2 s of
                   Some r \<Rightarrow> Some r
                 | None \<Rightarrow> rules_try 1 s))"

text \<open>
  \<open>re_rules_formatted.sub(r'\2', s)\<close>: every match, found from left to right without
  overlap, is replaced by its group 2. The counter is the number of characters of
  the last match still to be passed.
\<close>

fun rules_sub_from :: "nat \<Rightarrow> string \<Rightarrow> string" where
  "rules_sub_from k [] = []"
| "rules_sub_from (Suc k) (c # cs) = rules_sub_from k cs"
| "rules_sub_from 0 (c # cs) =
     (case m_rules_formatted (c # cs) of
        Some (n, body) \<Rightarrow> body @ rules_sub_from (n - 1) cs
      | None \<Rightarrow> c # rules_sub_from 0 cs)"

definition rules_formatted_sub :: "string \<Rightarrow> string" where
  "rules_formatted_sub s = rules_sub_from 0 s"

section \<open>The Spell object\<close>

text \<open>
  A \<open>Spell\<close> has no constructor: every attribute is absent until it is assigned, and
  \<open>hasattr\<close>/\<open>getattr\<close> observe the difference. Each attribute is therefore optional,
  \<open>None\<close> meaning that the attribute does not exist.
\<close>

record spell =
  name :: "string option"
  level :: "int option"
  rules :: "string option"
  school :: "string option"
  classes :: "string list option"
  cast_time :: "string option"
  spell_range :: "string option"
  duration :: "string option"
  concentration :: "bool option"
  ritual :: "bool option"
  verbal :: "bool option"
  somatic :: "bool option"
  material :: "bool option"
  material_costly :: "bool option"
  material_consumed :: "bool option"
  material_text :: "string option"
  material_cost :: "string option"
  source :: "string option"

definition Spell :: spell where
  "Spell = \<lparr>name = None, level = None, rules = None, school = None, classes = None,
            cast_time = None, spell_range = None, duration = None, concentration = None,
            ritual = None, verbal = None, somatic = None, material = None,
            material_costly = None, material_consumed = None, material_text = None,
            material_cost = None, source = None\<rparr>"

datatype error = RuntimeError string | AttributeError string | ValueError string | KeyError string

definition dq :: string where
  "dq = [CHR 0x22]"

section \<open>populate_spell_metadata\<close>

text \<open>
  The message of the \<open>RuntimeError\<close> raised when a part of the metadata cannot be
  parsed; reading \<open>spell.name\<close> of a spell without a name raises \<open>AttributeError\<close>.
\<close>

definition unable_to_parse :: "spell \<Rightarrow> string \<Rightarrow> error" where
  "unable_to_parse sp what =
     (case name sp of
        None \<Rightarrow> AttributeError ''name''
      | Some n \<Rightarrow> RuntimeError (''Unexpectedly unable to parse spell '' @ what @ '' for spell '' @ dq
                                 @ n @ dq @ ''. Aborting.''))"

text \<open>
  Level, school and ritual: the cantrip pattern is searched first, the level pattern
  only when it is not found. The result carries \<open>match.end()\<close>.
\<close>

definition parse_level_school_ritual :: "spell \<Rightarrow> string \<Rightarrow> error + (spell \<times> nat)" where
  "parse_level_school_ritual sp meta_str =
     (case re_search m_cantrip_school_ritual meta_str 0 of
        Some (e, g1, g2) \<Rightarrow>
          Inr (sp\<lparr>level := Some 0, school := Some (py_title g1), ritual := Some (g2 \<noteq> None)\<rparr>, e)
      | None \<Rightarrow>
          (case re_search m_lvl_school_ritual meta_str 0 of
             None \<Rightarrow> Inl (unable_to_parse sp ''level, school, or ritual'')
           | Some (e, g1, g2, g3) \<Rightarrow>
               Inr (sp\<lparr>level := Some (int (nat_of_digits g1)),
                       school := Some (py_strip (py_title g2)),
                       ritual := Some (g3 \<noteq> None)\<rparr>, e)))"

definition parse_casting_time :: "spell \<Rightarrow> string \<Rightarrow> nat \<Rightarrow> error + (spell \<times> nat)" where
  "parse_casting_time sp meta_str pos =
     (case re_search m_casting_time meta_str pos of
        None \<Rightarrow> Inl (unable_to_parse sp ''casting time'')
      | Some (e, g1) \<Rightarrow>
          (let sp1 = (if contains '', which you take when '' g1
                      then sp\<lparr>cast_time := Some (py_title (split_chr CHR '','' g1 ! 0)),
                              rules := Some (g1 @ [nl, nl])\<rparr>
                      else sp\<lparr>cast_time := Some (py_strip (py_title g1))\<rparr>);
               sp2 = (if cast_time sp1 = Some ''1 Bonus Action'' then sp1\<lparr>cast_time := Some ''Bonus''\<rparr>
                      else if cast_time sp1 = Some ''1 Reaction'' then sp1\<lparr>cast_time := Some ''Reaction''\<rparr>
                      else sp1)
           in Inr (sp2, e)))"

definition parse_range :: "spell \<Rightarrow> string \<Rightarrow> nat \<Rightarrow> error + (spell \<times> nat)" where
  "parse_range sp meta_str pos =
     (case re_search m_range meta_str pos of
        None \<Rightarrow> Inl (unable_to_parse sp ''range'')
      | Some (e, g1) \<Rightarrow> Inr (sp\<lparr>spell_range := Some (py_strip (py_title g1))\<rparr>, e))"

text \<open>
  The cost of the material component: the loop \<open>cost += int(c.group(1).replace(',', ''))\<close>
  over the matches of \<open>re_mat_cost\<close>.
\<close>

definition cost_step :: "nat \<Rightarrow> string \<Rightarrow> nat" where
  "cost_step cost g = cost + nat_of_digits (py_replace '','' [] g)"

definition material_cost_sum :: "string \<Rightarrow> nat" where
  "material_cost_sum txt = foldl cost_step 0 (mat_cost_finditer txt)"

text \<open>The block under \<open>if spell.material:\<close>.\<close>

definition material_details :: "spell \<Rightarrow> spell" where
  "material_details sp =
     (case material_text sp of
        Some txt \<Rightarrow>
          (let cost = material_cost_sum txt;
               sp1 = (if cost > 0
                      then sp\<lparr>material_costly := Some True, material_cost := Some (str_nat cost @ ''gp'')\<rparr>
                      else sp)
           in if contains ''which the spell consumes'' txt
              then sp1\<lparr>material_consumed := Some True\<rparr>
              else sp1)
      | None \<Rightarrow> sp\<lparr>material_text := Some []\<rparr>)"

definition parse_components :: "spell \<Rightarrow> string \<Rightarrow> nat \<Rightarrow> error + (spell \<times> nat)" where
  "parse_components sp meta_str pos =
     (case re_search m_components meta_str pos of
        None \<Rightarrow> Inl (unable_to_parse sp ''components'')
      | Some (e, g1) \<Rightarrow>
          (let paren = CHR ''('' \<in> set g1;
               types = (if paren then split_chr CHR ''('' g1 ! 0 else g1);
               sp1 = (if paren
                      then sp\<lparr>material_text := Some (split_chr CHR '')'' (split_chr CHR ''('' g1 ! 1) ! 0)\<rparr>
                      else sp);
               sp2 = sp1\<lparr>verbal := Some (CHR ''V'' \<in> set types),
                          somatic := Some (CHR ''S'' \<in> set types),
                          material := Some (CHR ''M'' \<in> set types),
                          material_costly := Some False,
                          material_consumed := Some False\<rparr>
           in Inr (if material sp2 = Some True then material_details sp2 else sp2, e)))"

text \<open>
  The duration. The last statement of the source, \<open>spell.duration.replace('one ', '1 ')\<close>,
  computes a new string and drops it: strings are immutable and the result is not
  assigned.
\<close>

definition parse_duration :: "spell \<Rightarrow> string \<Rightarrow> nat \<Rightarrow> error + spell" where
  "parse_duration sp meta_str pos =
     (case re_search m_duration meta_str pos of
        None \<Rightarrow> Inl (unable_to_parse sp ''duration'')
      | Some (e, g1) \<Rightarrow>
          (let sp1 = (case conc_dur_search g1 of
                        Some (ce, c1) \<Rightarrow> sp\<lparr>concentration := Some True, duration := Some c1\<rparr>
                      | None \<Rightarrow>
                          sp\<lparr>concentration := Some False,
                             duration := Some (if contains ''Instantaneous'' g1 then ''Instant'' else g1)\<rparr>);
               dropped = map_option (py_replace ''one '' ''1 '') (duration sp1)
           in Inr sp1))"

definition populate_spell_metadata :: "spell \<Rightarrow> string \<Rightarrow> error + spell" where
  "populate_spell_metadata sp meta_str =
     (case parse_level_school_ritual sp meta_str of
        Inl err \<Rightarrow> Inl err
      | Inr (sp1, e1) \<Rightarrow>
     (case parse_casting_time sp1 meta_str e1 of
        Inl err \<Rightarrow> Inl err
      | Inr (sp2, e2) \<Rightarrow>
     (case parse_range sp2 meta_str e2 of
        Inl err \<Rightarrow> Inl err
      | Inr (sp3, e3) \<Rightarrow>
     (case parse_components sp3 meta_str e3 of
        Inl err \<Rightarrow> Inl err
      | Inr (sp4, e4) \<Rightarrow> parse_duration sp4 meta_str e4))))"

section \<open>populate_spell_rules\<close>

definition populate_spell_rules :: "spell \<Rightarrow> string \<Rightarrow> spell" where
  "populate_spell_rules sp rule_str =
     (let seeded = (case rules sp of None \<Rightarrow> [] | Some r \<Rightarrow> r)
      in sp\<lparr>rules := Some (rules_formatted_sub (seeded @ rule_str))\<rparr>)"

section \<open>create_spell_dict\<close>

text \<open>
  An item of a spell's \<open>content\<close> array is a string, a list (whose elements are
  strings or something else), or something else (a table, for instance).
\<close>

datatype fragment = FStr string | FOther

datatype node = NStr string | NList "fragment list" | NOther

fun is_str :: "fragment \<Rightarrow> bool" where
  "is_str (FStr t) = True"
| "is_str FOther = False"

fun frag_str :: "fragment \<Rightarrow> string" where
  "frag_str (FStr t) = t"
| "frag_str FOther = []"

text \<open>
  The state of the extractor: the \<open>spells\<close> dictionary (a Python dictionary keeps
  its keys in insertion order, and an assignment to an existing key keeps the key's
  place) and the lines printed so far.
\<close>

record extractor =
  spells :: "(string \<times> spell) list"
  printed :: "string list"

definition duration_marker :: string where
  "duration_marker = ''**Duration:**''"

text \<open>\<open>content[segment] += txt + '\n\n'\<close> and the test that follows it.\<close>

definition append_txt :: "string list \<Rightarrow> nat \<Rightarrow> string \<Rightarrow> string list" where
  "append_txt content segment txt = content[segment := content ! segment @ txt @ [nl, nl]]"

definition next_segment :: "nat \<Rightarrow> string \<Rightarrow> nat" where
  "next_segment segment txt = (if contains duration_marker txt then 1 else segment)"

text \<open>
  A list of strings becomes one bulleted string, and one of the two line breaks
  before it is removed.
\<close>

definition bulleted :: "fragment list \<Rightarrow> string" where
  "bulleted fs = bullet @ '' '' @ py_join ([nl] @ bullet @ '' '') (map frag_str fs)"

definition drop_one_break :: "string list \<Rightarrow> nat \<Rightarrow> string list" where
  "drop_one_break content segment =
     (if drop (length (content ! segment) - 2) (content ! segment) = [nl, nl]
      then content[segment := butlast (content ! segment)]
      else content)"

text \<open>
  The loop over \<open>spell_info['content']\<close>. The result is the two texts, the segment
  reached and whether the loop was left at a node that is not text (the message
  "Encountered non-string node ..." is printed exactly then).
\<close>

fun content_loop :: "node list \<Rightarrow> string list \<Rightarrow> nat \<Rightarrow> string list \<times> nat \<times> bool" where
  "content_loop [] content segment = (content, segment, False)"
| "content_loop (NStr txt # rest) content segment =
     content_loop rest (append_txt content segment txt) (next_segment segment txt)"
| "content_loop (NOther # rest) content segment = (content, segment, True)"
| "content_loop (NList fs # rest) content segment =
     (if list_all is_str fs
      then content_loop rest (append_txt (drop_one_break content segment) segment (bulleted fs))
             (next_segment segment (bulleted fs))
      else (content, segment, True))"

definition msg_no_content :: "string \<Rightarrow> string" where
  "msg_no_content spell_name =
     ''No '' @ dq @ ''content'' @ dq @ '' node for possible spell '' @ dq @ spell_name @ dq
     @ '', this section will be skipped.''"

definition msg_non_string :: "string \<Rightarrow> string" where
  "msg_non_string spell_name =
     ''Encountered non-string node within '' @ dq @ ''content'' @ dq @ '' for spell '' @ dq
     @ spell_name @ dq @ '' - no additional rules text will be parsed.''"

definition msg_no_duration :: "string \<Rightarrow> string" where
  "msg_no_duration spell_name =
     ''No Duration / other metadata found for possible spell '' @ dq @ spell_name @ dq
     @ '', this section will be skipped.''"

definition print_line :: "string \<Rightarrow> extractor \<Rightarrow> extractor" where
  "print_line line ex = ex\<lparr>printed := printed ex @ [line]\<rparr>"

text \<open>
  The spell object every round starts with: \<open>Spell()\<close> with its name, its source and
  an empty class list.
\<close>

definition new_spell :: "string \<Rightarrow> spell" where
  "new_spell spell_name =
     Spell\<lparr>name := Some spell_name, source := Some ''System Reference Document'',
           classes := Some []\<rparr>"

text \<open>
  One round of the loop over \<open>spell_data.items()\<close>; \<open>spell_info\<close> is the \<open>content\<close>
  array of the entry, or \<open>None\<close> when the entry has none. An exception raised by
  \<open>populate_spell_metadata\<close> is not caught here.
\<close>

definition create_spell :: "extractor \<Rightarrow> string \<Rightarrow> node list option \<Rightarrow> error + extractor" where
  "create_spell ex spell_name spell_info =
     (let sp = new_spell spell_name
      in case spell_info of
           None \<Rightarrow> Inr (print_line (msg_no_content spell_name) ex)
         | Some nodes \<Rightarrow>
             (case content_loop nodes [[], []] 0 of
                (content, segment, non_string) \<Rightarrow>
                  (let ex1 = (if non_string then print_line (msg_non_string spell_name) ex else ex)
                   in if segment = 0 then Inr (print_line (msg_no_duration spell_name) ex1)
                      else (case populate_spell_metadata sp (py_strip (content ! 0)) of
                              Inl err \<Rightarrow> Inl err
                            | Inr sp1 \<Rightarrow>
                                Inr (ex1\<lparr>spells :=
                                       AList.update spell_name
                                         (populate_spell_rules sp1 (py_strip (content ! 1)))
                                         (spells ex1)\<rparr>)))))"

fun create_spell_dict :: "(string \<times> node list option) list \<Rightarrow> extractor \<Rightarrow> error + extractor" where
  "create_spell_dict [] ex = Inr ex"
| "create_spell_dict ((spell_name, spell_info) # rest) ex =
     (case create_spell ex spell_name spell_info of
        Inl err \<Rightarrow> Inl err
      | Inr ex1 \<Rightarrow> create_spell_dict rest ex1)"

section \<open>add_class_info\<close>

text \<open>
  \<open>class_data\<close> maps a class label to a section, which maps a level label to a list
  of spell names. The three nested loops are three functions, innermost first.
  \<open>classes.append\<close> on a spell without a \<open>classes\<close> attribute raises.
\<close>

fun add_spell_list :: "string \<Rightarrow> string list \<Rightarrow> (string \<times> spell) list \<Rightarrow> error + (string \<times> spell) list" where
  "add_spell_list class_name [] sps = Inr sps"
| "add_spell_list class_name (spell_name # rest) sps =
     (case map_of sps spell_name of
        None \<Rightarrow> add_spell_list class_name rest sps
      | Some sp \<Rightarrow>
          (case classes sp of
             None \<Rightarrow> Inl (AttributeError ''classes'')
           | Some cs \<Rightarrow>
               add_spell_list class_name rest
                 (AList.update spell_name (sp\<lparr>classes := Some (cs @ [class_name])\<rparr>) sps)))"

fun add_class_section :: "string \<Rightarrow> (string \<times> string list) list \<Rightarrow> (string \<times> spell) list
    \<Rightarrow> error + (string \<times> spell) list" where
  "add_class_section class_name [] sps = Inr sps"
| "add_class_section class_name ((level_label, spell_list) # rest) sps =
     (case add_spell_list class_name spell_list sps of
        Inl err \<Rightarrow> Inl err
      | Inr sps1 \<Rightarrow> add_class_section class_name rest sps1)"

fun add_class_data :: "(string \<times> (string \<times> string list) list) list \<Rightarrow> (string \<times> spell) list
    \<Rightarrow> error + (string \<times> spell) list" where
  "add_class_data [] sps = Inr sps"
| "add_class_data ((class_label, class_section) # rest) sps =
     (case add_class_section (split_chr CHR '' '' class_label ! 0) class_section sps of
        Inl err \<Rightarrow> Inl err
      | Inr sps1 \<Rightarrow> add_class_data rest sps1)"

definition add_class_info :: "(string \<times> (string \<times> string list) list) list \<Rightarrow> extractor \<Rightarrow> error + extractor" where
  "add_class_info class_data ex =
     (case add_class_data class_data (spells ex) of
        Inl err \<Rightarrow> Inl err
      | Inr sps \<Rightarrow> Inr (ex\<lparr>spells := sps\<rparr>))"

section \<open>parse_spells\<close>

definition SRD_5_Extractor :: extractor where
  "SRD_5_Extractor = \<lparr>spells = [], printed = []\<rparr>"

text \<open>
  \<open>parse_spells\<close> on the two sections of the retrieved document, \<open>Spell Descriptions\<close>
  and \<open>Spell Lists\<close>.
\<close>

definition parse_spells :: "(string \<times> node list option) list \<Rightarrow> (string \<times> (string \<times> string list) list) list
    \<Rightarrow> error + extractor" where
  "parse_spells spell_data class_data =
     (case create_spell_dict spell_data SRD_5_Extractor of
        Inl err \<Rightarrow> Inl err
      | Inr ex \<Rightarrow> add_class_info class_data ex)"

section \<open>CSV rows\<close>

text \<open>
  \<open>str(n)\<close> and \<open>int(s)\<close> for integers. \<open>int\<close> skips surrounding whitespace, reads
  an optional sign and decimal digits, and allows single underscores between
  digits; anything else is a \<open>ValueError\<close>.
\<close>

definition str_int :: "int \<Rightarrow> string" where
  "str_int i = (if i < 0 then CHR ''-'' # str_nat (nat (- i)) else str_nat (nat i))"

definition valid_digits :: "string \<Rightarrow> bool" where
  "valid_digits ds =
     (ds \<noteq> [] \<and> list_all (\<lambda>c. is_digit c \<or> c = CHR ''_'') ds \<and> is_digit (hd ds)
      \<and> is_digit (last ds) \<and> \<not> contains ''__'' ds)"

definition py_int :: "string \<Rightarrow> error + int" where
  "py_int s =
     (let t = py_strip s;
          neg = starts_with ''-'' t;
          ds = (if starts_with ''-'' t \<or> starts_with ''+'' t then drop 1 t else t)
      in if valid_digits ds
         then Inr ((if neg then - 1 else 1) * int (nat_of_digits (filter (\<lambda>c. c \<noteq> CHR ''_'') ds)))
         else Inl (ValueError s))"

text \<open>
  \<open>s.split(sep)\<close> for a non-empty separator: \<open>cur\<close> is the piece being read, the
  counter the number of characters of a found separator still to be passed.
\<close>

fun split_from :: "nat \<Rightarrow> string \<Rightarrow> string \<Rightarrow> string \<Rightarrow> string list" where
  "split_from k sep cur [] = [cur]"
| "split_from (Suc k) sep cur (c # cs) = split_from k sep cur cs"
| "split_from 0 sep cur (c # cs) =
     (if starts_with sep (c # cs) then cur # split_from (length sep - 1) sep [] cs
      else split_from 0 sep (cur @ [c]) cs)"

definition py_split :: "string \<Rightarrow> string \<Rightarrow> string list" where
  "py_split sep s = split_from 0 sep [] s"

text \<open>\<open>getattr(self, attr, default)\<close>.\<close>

definition getattr :: "'a option \<Rightarrow> 'a \<Rightarrow> 'a" where
  "getattr a d = (case a of None \<Rightarrow> d | Some v \<Rightarrow> v)"

definition yes_no :: "bool option \<Rightarrow> string" where
  "yes_no a = (if getattr a False then ''yes'' else ''no'')"

text \<open>A CSV row is a dictionary from column names to strings.\<close>

definition to_csv_dict :: "spell \<Rightarrow> (string \<times> string) list" where
  "to_csv_dict sp =
     [(''level'', str_int (getattr (level sp) (- 1))),
      (''name'', getattr (name sp) ''Unknown''),
      (''school'', getattr (school sp) ''Unknown''),
      (''classes'', py_join '', '' (getattr (classes sp) [])),
      (''range'', getattr (spell_range sp) []),
      (''cast_time'', getattr (cast_time sp) []),
      (''duration'', getattr (duration sp) []),
      (''concentration'', yes_no (concentration sp)),
      (''ritual'', yes_no (ritual sp)),
      (''verbal'', yes_no (verbal sp)),
      (''somatic'', yes_no (somatic sp)),
      (''material'', yes_no (material sp)),
      (''material_costly'', yes_no (material_costly sp)),
      (''material_consumed'', yes_no (material_consumed sp)),
      (''material_text'', getattr (material_text sp) []),
      (''material_cost'', getattr (material_cost sp) []),
      (''rules'', getattr (rules sp) []),
      (''source'', getattr (source sp) [])]"

definition sum_bind :: "error + 'a \<Rightarrow> ('a \<Rightarrow> error + 'b) \<Rightarrow> error + 'b" where
  "sum_bind r f = (case r of Inl err \<Rightarrow> Inl err | Inr v \<Rightarrow> f v)"

text \<open>\<open>csv_row[key]\<close>: a missing key raises \<open>KeyError\<close>.\<close>

definition row_get :: "(string \<times> string) list \<Rightarrow> string \<Rightarrow> error + string" where
  "row_get csv_row k = (case map_of csv_row k of None \<Rightarrow> Inl (KeyError k) | Some v \<Rightarrow> Inr v)"

text \<open>
  \<open>from_csv_dict\<close> assigns the attributes in the order of the source; the material
  text and cost are read only when the \<open>material\<close> column says \<open>yes\<close>.
\<close>

definition from_csv_material :: "spell \<Rightarrow> (string \<times> string) list \<Rightarrow> error + spell" where
  "from_csv_material sp csv_row =
     (if material sp = Some True then
        sum_bind (row_get csv_row ''material_text'') (\<lambda>txt.
        sum_bind (row_get csv_row ''material_cost'') (\<lambda>cost.
          Inr (if length cost > 0
               then sp\<lparr>material_text := Some txt, material_cost := Some cost\<rparr>
               else sp\<lparr>material_text := Some txt\<rparr>)))
      else Inr sp)"

definition from_csv_dict :: "spell \<Rightarrow> (string \<times> string) list \<Rightarrow> error + spell" where
  "from_csv_dict sp csv_row =
     sum_bind (row_get csv_row ''level'') (\<lambda>lv.
     sum_bind (py_int lv) (\<lambda>l.
     sum_bind (row_get csv_row ''name'') (\<lambda>nm.
     sum_bind (row_get csv_row ''school'') (\<lambda>sch.
     sum_bind (row_get csv_row ''classes'') (\<lambda>cls.
     sum_bind (row_get csv_row ''range'') (\<lambda>rng.
     sum_bind (row_get csv_row ''cast_time'') (\<lambda>ct.
     sum_bind (row_get csv_row ''duration'') (\<lambda>dur.
     sum_bind (row_get csv_row ''concentration'') (\<lambda>conc.
     sum_bind (row_get csv_row ''ritual'') (\<lambda>rit.
     sum_bind (row_get csv_row ''verbal'') (\<lambda>vb.
     sum_bind (row_get csv_row ''somatic'') (\<lambda>som.
     sum_bind (row_get csv_row ''material'') (\<lambda>mat.
     sum_bind (row_get csv_row ''material_costly'') (\<lambda>costly.
     sum_bind (row_get csv_row ''material_consumed'') (\<lambda>consumed.
     sum_bind (from_csv_material
                 (sp\<lparr>level := Some l, name := Some nm, school := Some sch,
                     classes := Some (py_split '', '' cls), spell_range := Some rng,
                     cast_time := Some ct, duration := Some dur,
                     concentration := Some (conc = ''yes''), ritual := Some (rit = ''yes''),
                     verbal := Some (vb = ''yes''), somatic := Some (som = ''yes''),
                     material := Some (mat = ''yes''),
                     material_costly := Some (costly = ''yes''),
                     material_consumed := Some (consumed = ''yes'')\<rparr>) csv_row) (\<lambda>sp1.
     sum_bind (row_get csv_row ''rules'') (\<lambda>rl.
     sum_bind (row_get csv_row ''source'') (\<lambda>src.
       Inr (sp1\<lparr>rules := Some rl, source := Some src\<rparr>)))))))))))))))))))"

section \<open>Notions used to state the properties\<close>

text \<open>
  A content node the extractor accepts: a string, or a list all of whose elements
  are strings; and the text such a node contributes.
\<close>

fun supported :: "node \<Rightarrow> bool" where
  "supported (NStr txt) = True"
| "supported (NList fs) = list_all is_str fs"
| "supported NOther = False"

fun node_txt :: "node \<Rightarrow> string" where
  "node_txt (NStr txt) = txt"
| "node_txt (NList fs) = bulleted fs"
| "node_txt NOther = []"

definition has_marker :: "node \<Rightarrow> bool" where
  "has_marker n = contains duration_marker (node_txt n)"

text \<open>
  The text block made of a sequence of accepted nodes, starting from \<open>buf\<close>: each
  node's text followed by a blank line, a list keeping only one of the two line
  breaks before it.
\<close>

fun block_of :: "string \<Rightarrow> node list \<Rightarrow> string" where
  "block_of buf [] = buf"
| "block_of buf (NStr txt # rest) = block_of (buf @ txt @ [nl, nl]) rest"
| "block_of buf (NList fs # rest) =
     block_of ((if drop (length buf - 2) buf = [nl, nl] then butlast buf else buf)
               @ bulleted fs @ [nl, nl]) rest"
| "block_of buf (NOther # rest) = block_of buf rest"

text \<open>The amount of one match of the cost pattern: \<open>int(c.group(1).replace(',', ''))\<close>.\<close>

definition amount :: "string \<Rightarrow> nat" where
  "amount g = nat_of_digits (py_replace '','' [] g)"

text \<open>
  The class names a spell name is listed under, one for every listing, in the
  order of the document: the label up to its first space, \<open>class_label.split(' ')[0]\<close>.
\<close>

definition list_tokens :: "string \<Rightarrow> string list \<Rightarrow> string \<Rightarrow> string list" where
  "list_tokens class_name spell_list n = map (\<lambda>x. class_name) (filter (\<lambda>x. x = n) spell_list)"

definition section_tokens :: "string \<Rightarrow> (string \<times> string list) list \<Rightarrow> string \<Rightarrow> string list" where
  "section_tokens class_name class_section n =
     concat (map (\<lambda>(level_label, spell_list). list_tokens class_name spell_list n) class_section)"

definition class_tokens :: "(string \<times> (string \<times> string list) list) list \<Rightarrow> string \<Rightarrow> string list" where
  "class_tokens class_data n =
     concat (map (\<lambda>(class_label, class_section).
                    section_tokens (split_chr CHR '' '' class_label ! 0) class_section n) class_data)"

text \<open>
  Appending class names to the class list of a spell, and doing so for every spell
  of the dictionary, with the names chosen by the spell's key.
\<close>

definition add_classes :: "string list \<Rightarrow> spell \<Rightarrow> spell" where
  "add_classes toks sp = sp\<lparr>classes := map_option (\<lambda>cs. cs @ toks) (classes sp)\<rparr>"

definition annotate :: "(string \<Rightarrow> string list) \<Rightarrow> (string \<times> spell) list \<Rightarrow> (string \<times> spell) list" where
  "annotate f sps = map (\<lambda>(k, sp). (k, add_classes (f k) sp)) sps"

text \<open>
  A dictionary the class annotator can work on: the keys are distinct (as in any
  dictionary) and every spell has a class list.
\<close>

definition has_classes :: "(string \<times> spell) list \<Rightarrow> bool" where
  "has_classes sps = (distinct (map fst sps) \<and> list_all (\<lambda>(k, sp). classes sp \<noteq> None) sps)"

text \<open>
  The optional attributes of a record against its flags: a material component has
  a material text, and a material cost is there exactly when the material is costly.
\<close>

definition optional_fields_ok :: "spell \<Rightarrow> bool" where
  "optional_fields_ok sp =
     ((material sp = Some True \<longrightarrow> material_text sp \<noteq> None)
      \<and> ((material_cost sp \<noteq> None) = (material_costly sp = Some True)))"

text \<open>
  Rules text whose emphasis is well formed: a sequence of spans, each either plain
  text without an emphasis character, or a body wrapped in one to three emphasis
  characters on both sides, the body being non-empty and free of emphasis
  characters and line breaks.
\<close>

datatype span = Plain string | Emph nat string

fun span_source :: "span \<Rightarrow> string" where
  "span_source (Plain t) = t"
| "span_source (Emph k body) = replicate k star @ body @ replicate k star"

fun span_text :: "span \<Rightarrow> string" where
  "span_text (Plain t) = t"
| "span_text (Emph k body) = body"

fun well_formed :: "span \<Rightarrow> bool" where
  "well_formed (Plain t) = (star \<notin> set t)"
| "well_formed (Emph k body) =
     (1 \<le> k \<and> k \<le> 3 \<and> body \<noteq> [] \<and> star \<notin> set body \<and> nl \<notin> set body)"

text \<open>
  The text the duration pattern captures in a metadata block. The parser searches
  its patterns one after the other, each from the end of the match before it
  (\<open>search(meta_str, match.end())\<close>): the cantrip pattern from the start, or the
  level pattern when the cantrip pattern is not found, then the casting time, the
  range, the components and the duration.
\<close>

definition level_end :: "string \<Rightarrow> nat option" where
  "level_end meta_str =
     (case re_search m_cantrip_school_ritual meta_str 0 of
        Some (e, g) \<Rightarrow> Some e
      | None \<Rightarrow> map_option fst (re_search m_lvl_school_ritual meta_str 0))"

definition captured_duration :: "string \<Rightarrow> string option" where
  "captured_duration meta_str =
     (case level_end meta_str of
        None \<Rightarrow> None
      | Some e1 \<Rightarrow>
     (case re_search m_casting_time meta_str e1 of
        None \<Rightarrow> None
      | Some (e2, g2) \<Rightarrow>
     (case re_search m_range meta_str e2 of
        None \<Rightarrow> None
      | Some (e3, g3) \<Rightarrow>
     (case re_search m_components meta_str e3 of
        None \<Rightarrow> None
      | Some (e4, g4) \<Rightarrow>
     (case re_search m_duration meta_str e4 of
        None \<Rightarrow> None
      | Some (e5, g5) \<Rightarrow> Some g5)))))"

text \<open>
  A record that a CSV row can carry: every attribute but the two optional ones is
  present, the class list is not empty and no class name holds the separator of the
  classes column (a comma followed by a space), the material text is present exactly
  when \<open>material\<close> is true, and a material cost, when present, is not empty and
  belongs to a spell with a material component.
\<close>

definition csv_faithful :: "spell \<Rightarrow> bool" where
  "csv_faithful sp =
     (name sp \<noteq> None \<and> level sp \<noteq> None \<and> rules sp \<noteq> None \<and> school sp \<noteq> None
      \<and> cast_time sp \<noteq> None \<and> spell_range sp \<noteq> None \<and> duration sp \<noteq> None
      \<and> concentration sp \<noteq> None \<and> ritual sp \<noteq> None \<and> verbal sp \<noteq> None
      \<and> somatic sp \<noteq> None \<and> material sp \<noteq> None \<and> material_costly sp \<noteq> None
      \<and> material_consumed sp \<noteq> None \<and> source sp \<noteq> None
      \<and> (case classes sp of
            None \<Rightarrow> False
          | Some cs \<Rightarrow> cs \<noteq> [] \<and> list_all (\<lambda>c. \<not> contains '', '' c) cs)
      \<and> ((material_text sp \<noteq> None) = (material sp = Some True))
      \<and> (case material_cost sp of
            None \<Rightarrow> True
          | Some cost \<Rightarrow> cost \<noteq> [] \<and> material sp = Some True))"

section \<open>Example documents\<close>

text \<open>
  A well-formed entry (the metadata of the specification's scenario A, followed by
  one paragraph of rules), the record it yields, and an entry whose metadata lacks
  the range label.
\<close>

definition good_content :: "node list" where
  "good_content =
     [NStr ''*3rd-level illusion*'', NStr ''**Casting Time:** 1 action'',
      NStr ''**Range:** 60 feet'', NStr ''**Components:** V, S, M (a pinch of soot)'',
      NStr ''**Duration:** Instantaneous'', NStr ''You *vanish*.'']"

definition good_record :: "string \<Rightarrow> spell" where
  "good_record spell_name =
     \<lparr>name = Some spell_name, level = Some 3, rules = Some ''You vanish.'',
      school = Some ''Illusion'', classes = Some [], cast_time = Some ''1 Action'',
      spell_range = Some ''60 Feet'', duration = Some ''Instant'',
      concentration = Some False, ritual = Some False, verbal = Some True,
      somatic = Some True, material = Some True, material_costly = Some False,
      material_consumed = Some False, material_text = Some ''a pinch of soot'',
      material_cost = None, source = Some ''System Reference Document''\<rparr>"

definition no_range_content :: "node list" where
  "no_range_content =
     [NStr ''*3rd-level illusion*'', NStr ''**Casting Time:** 1 action'',
      NStr ''**Components:** V, S'', NStr ''**Duration:** Instantaneous'',
      NStr ''You *vanish*.'']"

text \<open>
  Metadata blocks: a ritual cantrip that needs concentration (scenarios C and D of
  the specification), a spell with a costly, consumed material (scenario B), and a
  spell whose duration is written with a number word.
\<close>

definition cantrip_metadata :: string where
  "cantrip_metadata =
     ''*Evocation cantrip (ritual)*'' @ [nl, nl] @ ''**Casting Time:** 1 bonus action'' @ [nl, nl]
     @ ''**Range:** Self'' @ [nl, nl] @ ''**Components:** V, S'' @ [nl, nl]
     @ ''**Duration:** Concentration, up to 10 minutes''"

definition cantrip_record :: spell where
  "cantrip_record =
     \<lparr>name = Some ''Spark'', level = Some 0, rules = None, school = Some ''Evocation'',
      classes = Some [], cast_time = Some ''Bonus'', spell_range = Some ''Self'',
      duration = Some ''10 minutes'', concentration = Some True, ritual = Some True,
      verbal = Some True, somatic = Some True, material = Some False,
      material_costly = Some False, material_consumed = Some False, material_text = None,
      material_cost = None, source = Some ''System Reference Document''\<rparr>"

definition diamond_metadata :: string where
  "diamond_metadata =
     ''*3rd-level necromancy*'' @ [nl, nl] @ ''**Casting Time:** 1 action'' @ [nl, nl]
     @ ''**Range:** Touch'' @ [nl, nl]
     @ ''**Components:** V, S, M (a diamond worth 300 gp, which the spell consumes)'' @ [nl, nl]
     @ ''**Duration:** one minute''"

definition diamond_record :: spell where
  "diamond_record =
     \<lparr>name = Some ''Revive'', level = Some 3, rules = None, school = Some ''Necromancy'',
      classes = Some [], cast_time = Some ''1 Action'', spell_range = Some ''Touch'',
      duration = Some ''one minute'', concentration = Some False, ritual = Some False,
      verbal = Some True, somatic = Some True, material = Some True,
      material_costly = Some True, material_consumed = Some True,
      material_text = Some ''a diamond worth 300 gp, which the spell consumes'',
      material_cost = Some ''300gp'', source = Some ''System Reference Document''\<rparr>"

text \<open>
  An entry whose components carry a parenthesised clause but no material letter,
  and the record it yields.
\<close>

definition focus_content :: "node list" where
  "focus_content =
     [NStr ''*1st-level conjuration*'', NStr ''**Casting Time:** 1 action'',
      NStr ''**Range:** Self'', NStr ''**Components:** V, S (a focus)'',
      NStr ''**Duration:** 1 hour'', NStr ''Mist surrounds you.'']"

definition focus_record :: "string \<Rightarrow> spell" where
  "focus_record spell_name =
     \<lparr>name = Some spell_name, level = Some 1, rules = Some ''Mist surrounds you.'',
      school = Some ''Conjuration'', classes = Some [], cast_time = Some ''1 Action'',
      spell_range = Some ''Self'', duration = Some ''1 hour'',
      concentration = Some False, ritual = Some False, verbal = Some True,
      somatic = Some True, material = Some False, material_costly = Some False,
      material_consumed = Some False, material_text = Some ''a focus'',
      material_cost = None, source = Some ''System Reference Document''\<rparr>"

text \<open>
  Metadata whose duration offers two values, the first of them instantaneous, and
  metadata whose components name a priced focus in a parenthesised clause without
  the material letter; and the records they yield.
\<close>

definition instantaneous_metadata :: string where
  "instantaneous_metadata =
     ''*1st-level abjuration*'' @ [nl, nl] @ ''**Casting Time:** 1 action'' @ [nl, nl]
     @ ''**Range:** Touch'' @ [nl, nl] @ ''**Components:** V, S'' @ [nl, nl]
     @ ''**Duration:** Instantaneous or 1 hour (see below)''"

definition instantaneous_record :: spell where
  "instantaneous_record =
     \<lparr>name = Some ''Ward'', level = Some 1, rules = None, school = Some ''Abjuration'',
      classes = Some [], cast_time = Some ''1 Action'', spell_range = Some ''Touch'',
      duration = Some ''Instant'', concentration = Some False, ritual = Some False,
      verbal = Some True, somatic = Some True, material = Some False,
      material_costly = Some False, material_consumed = Some False, material_text = None,
      material_cost = None, source = Some ''System Reference Document''\<rparr>"

definition priced_focus_metadata :: string where
  "priced_focus_metadata =
     ''*1st-level conjuration*'' @ [nl, nl] @ ''**Casting Time:** 1 action'' @ [nl, nl]
     @ ''**Range:** Self'' @ [nl, nl] @ ''**Components:** V, S (a focus worth 100 gp)'' @ [nl, nl]
     @ ''**Duration:** 1 hour''"

definition priced_focus_record :: spell where
  "priced_focus_record =
     \<lparr>name = Some ''Fog'', level = Some 1, rules = None, school = Some ''Conjuration'',
      classes = Some [], cast_time = Some ''1 Action'', spell_range = Some ''Self'',
      duration = Some ''1 hour'', concentration = Some False, ritual = Some False,
      verbal = Some True, somatic = Some True, material = Some False,
      material_costly = Some False, material_consumed = Some False,
      material_text = Some ''a focus worth 100 gp'', material_cost = None,
      source = Some ''System Reference Document''\<rparr>"

section \<open>The content segmenter\<close>

lemma block_of_append: "block_of buf (xs @ ys) = block_of (block_of buf xs) ys"
  by (induction buf xs rule: block_of.induct) simp_all

lemma block_of_strings: "block_of buf (map NStr ts) = buf @ concat (map (\<lambda>t. t @ [nl, nl]) ts)"
  by (induction ts arbitrary: buf) simp_all

lemma content_loop_before_marker:
  "list_all supported ns \<Longrightarrow> \<not> list_ex has_marker ns \<Longrightarrow>
   content_loop (ns @ rest) [a, b] 0 = content_loop rest [block_of a ns, b] 0"
proof (induction ns arbitrary: a)
  case Nil
  then show ?case by simp
next
  case (Cons n ns)
  then show ?case
    by (cases n) (simp_all add: has_marker_def append_txt_def next_segment_def drop_one_break_def)
qed

lemma content_loop_after_marker:
  "list_all supported ns \<Longrightarrow>
   content_loop (ns @ rest) [a, b] (Suc 0) = content_loop rest [a, block_of b ns] (Suc 0)"
proof (induction ns arbitrary: b)
  case Nil
  then show ?case by simp
next
  case (Cons n ns)
  then show ?case
    by (cases n) (simp_all add: append_txt_def next_segment_def drop_one_break_def)
qed

lemma content_loop_at_marker:
  "supported m \<Longrightarrow> has_marker m \<Longrightarrow>
   content_loop (m # rest) [a, b] 0 = content_loop rest [block_of a [m], b] (Suc 0)"
  by (cases m) (simp_all add: has_marker_def append_txt_def next_segment_def drop_one_break_def)

text \<open>
  Claim C2, as the code has it. The items before the first item whose text contains
  \<open>**Duration:**\<close>, and that item itself, make the metadata block; the items after it
  make the rules block. (The claim puts the marker item into the rules block; the
  source appends the item to the current block first and switches the segment
  afterwards, and the metadata parser reads the duration from the metadata block.)
\<close>

theorem segmenter_split:
  assumes "list_all supported before" and "\<not> list_ex has_marker before"
    and "supported m" and "has_marker m" and "list_all supported after"
  shows "content_loop (before @ m # after) [[], []] 0
         = ([block_of [] (before @ [m]), block_of [] after], 1, False)"
proof -
  have "content_loop (before @ m # after) [[], []] 0
        = content_loop (m # after) [block_of [] before, []] 0"
    using assms(1,2) by (rule content_loop_before_marker)
  also have "\<dots> = content_loop after [block_of (block_of [] before) [m], []] (Suc 0)"
    using assms(3,4) by (rule content_loop_at_marker)
  also have "\<dots> = content_loop (after @ []) [block_of [] (before @ [m]), []] (Suc 0)"
    by (simp add: block_of_append)
  also have "\<dots> = content_loop [] [block_of [] (before @ [m]), block_of [] after] (Suc 0)"
    using assms(5) by (rule content_loop_after_marker)
  finally show ?thesis by simp
qed

theorem segmenter_split_witness:
  "content_loop [NStr ''*Evocation cantrip*'', NStr ''**Duration:** 1 round'', NStr ''Flames.'',
                 NList [FStr ''a'', FStr ''b'']] [[], []] 0
   = ([''*Evocation cantrip*'' @ [nl, nl] @ ''**Duration:** 1 round'' @ [nl, nl],
       ''Flames.'' @ [nl] @ bullet @ '' a'' @ [nl] @ bullet @ '' b'' @ [nl, nl]], 1, False)"
proof -
  have h1: "list_all supported [NStr ''*Evocation cantrip*'']" by simp
  have h2: "\<not> list_ex has_marker [NStr ''*Evocation cantrip*'']"
    by (simp add: has_marker_def duration_marker_def starts_with_def)
  have h3: "supported (NStr ''**Duration:** 1 round'')" by simp
  have h4: "has_marker (NStr ''**Duration:** 1 round'')"
    by (simp add: has_marker_def duration_marker_def starts_with_def)
  have h5: "list_all supported [NStr ''Flames.'', NList [FStr ''a'', FStr ''b'']]" by simp
  have blocks:
    "block_of [] ([NStr ''*Evocation cantrip*''] @ [NStr ''**Duration:** 1 round''])
       = ''*Evocation cantrip*'' @ [nl, nl] @ ''**Duration:** 1 round'' @ [nl, nl]"
    "block_of [] [NStr ''Flames.'', NList [FStr ''a'', FStr ''b'']]
       = ''Flames.'' @ [nl] @ bullet @ '' a'' @ [nl] @ bullet @ '' b'' @ [nl, nl]"
    by (simp_all add: bulleted_def)
  from segmenter_split [OF h1 h2 h3 h4 h5] show ?thesis
    unfolding blocks by simp
qed

theorem marker_item_counterexample:
  "content_loop [NStr ''intro'', NStr ''**Duration:** 1 round'', NStr ''Flames.''] [[], []] 0
     = ([''intro'' @ [nl, nl] @ ''**Duration:** 1 round'' @ [nl, nl], ''Flames.'' @ [nl, nl]], 1, False)
   \<and> \<not> contains duration_marker (''Flames.'' @ [nl, nl])"
  by (simp add: append_txt_def next_segment_def duration_marker_def starts_with_def nl_def)

section \<open>Unsupported content items\<close>

lemma content_loop_supported:
  "list_all supported ns \<Longrightarrow> snd (snd (content_loop ns c s)) = False"
proof (induction ns arbitrary: c s)
  case Nil
  then show ?case by simp
next
  case (Cons n ns)
  then show ?case by (cases n) simp_all
qed

lemma content_loop_unsupported:
  "list_all supported ns \<Longrightarrow> \<not> supported u \<Longrightarrow>
   content_loop (ns @ u # rest) c s
   = (fst (content_loop ns c s), fst (snd (content_loop ns c s)), True)"
proof (induction ns arbitrary: c s)
  case Nil
  then show ?case by (cases u) simp_all
next
  case (Cons n ns)
  then show ?case by (cases n) simp_all
qed

lemma create_spell_cut:
  assumes "list_all supported before" and "\<not> supported u"
  shows "create_spell ex spell_name (Some (before @ u # after))
         = create_spell (print_line (msg_non_string spell_name) ex) spell_name (Some before)"
proof -
  obtain c s b where r: "content_loop before [[], []] 0 = (c, s, b)"
    by (cases "content_loop before [[], []] 0") auto
  have b: "b = False"
    using content_loop_supported [OF assms(1), of "[[], []]" 0] r by simp
  have cut: "content_loop (before @ u # after) [[], []] 0 = (c, s, True)"
    using content_loop_unsupported [OF assms, of after "[[], []]" 0] r by simp
  show ?thesis
    by (simp add: create_spell_def r b cut)
qed

lemma no_marker_segment:
  assumes "list_all supported before" and "\<not> list_ex has_marker before"
  shows "content_loop before [[], []] 0 = ([block_of [] before, []], 0, False)"
  using content_loop_before_marker [OF assms, of "[]" "[]" "[]"] by simp

text \<open>
  Claim C4, as the code has it. At an item that is neither a string nor a list of
  strings the extractor reports the item and stops reading the content; the entry
  is then handled exactly as if its content had ended just before that item. So
  the entry is excluded (with a second reported reason) when no earlier item held
  the duration marker, and otherwise its record is built from the items read so
  far, the rules text cut short. (The claim excludes the entry in both cases; the
  source breaks out of the loop and goes on, as its messages and docstrings say.)
\<close>

theorem unsupported_item_truncates:
  assumes "list_all supported before" and "\<not> supported u"
  shows "create_spell ex spell_name (Some (before @ u # after))
           = create_spell (print_line (msg_non_string spell_name) ex) spell_name (Some before)
         \<and> (\<not> list_ex has_marker before \<longrightarrow>
              create_spell ex spell_name (Some (before @ u # after))
              = Inr (print_line (msg_no_duration spell_name)
                       (print_line (msg_non_string spell_name) ex)))"
proof (intro conjI impI)
  show cut: "create_spell ex spell_name (Some (before @ u # after))
           = create_spell (print_line (msg_non_string spell_name) ex) spell_name (Some before)"
    using assms by (rule create_spell_cut)
  assume "\<not> list_ex has_marker before"
  then have "content_loop before [[], []] 0 = ([block_of [] before, []], 0, False)"
    using assms(1) by (simp add: no_marker_segment)
  then show "create_spell ex spell_name (Some (before @ u # after))
              = Inr (print_line (msg_no_duration spell_name)
                       (print_line (msg_non_string spell_name) ex))"
    unfolding cut by (simp add: create_spell_def)
qed

theorem unsupported_item_truncates_witness:
  "create_spell SRD_5_Extractor ''Blur'' (Some (good_content @ NOther # [NStr ''more'']))
     = create_spell (print_line (msg_non_string ''Blur'') SRD_5_Extractor) ''Blur'' (Some good_content)
   \<and> create_spell SRD_5_Extractor ''Blur'' (Some ([NStr ''intro''] @ NOther # [NStr ''more'']))
     = Inr (print_line (msg_no_duration ''Blur'') (print_line (msg_non_string ''Blur'') SRD_5_Extractor))"
proof -
  have h1: "list_all supported good_content" by (simp add: good_content_def)
  have h2: "list_all supported [NStr ''intro'']" by simp
  have h3: "\<not> supported NOther" by simp
  have h4: "\<not> list_ex has_marker [NStr ''intro'']"
    by (simp add: has_marker_def duration_marker_def starts_with_def)
  from unsupported_item_truncates [OF h1 h3] unsupported_item_truncates [OF h2 h3] h4
  show ?thesis by blast
qed

theorem table_after_duration_counterexample:
  "create_spell SRD_5_Extractor ''Blur'' (Some (good_content @ [NOther, NStr ''more'']))
   = Inr \<lparr>spells = [(''Blur'', good_record ''Blur'')], printed = [msg_non_string ''Blur'']\<rparr>"
  unfolding good_content_def good_record_def by code_simp

section \<open>Metadata that cannot be parsed\<close>

lemma create_spell_dict_append:
  "create_spell_dict (xs @ ys) ex
   = (case create_spell_dict xs ex of Inl err \<Rightarrow> Inl err | Inr ex1 \<Rightarrow> create_spell_dict ys ex1)"
  by (induction xs ex rule: create_spell_dict.induct) (simp_all split: sum.splits)

lemma material_details_name: "name (material_details sp) = name sp"
  by (simp add: material_details_def Let_def split: option.splits)

lemma parse_level_school_ritual_name:
  "parse_level_school_ritual sp meta_str = Inr (sp1, e) \<Longrightarrow> name sp1 = name sp"
  by (auto simp: parse_level_school_ritual_def split: option.splits)

lemma parse_casting_time_name:
  "parse_casting_time sp meta_str pos = Inr (sp1, e) \<Longrightarrow> name sp1 = name sp"
  by (auto simp: parse_casting_time_def Let_def split: option.splits if_splits)

lemma parse_range_name:
  "parse_range sp meta_str pos = Inr (sp1, e) \<Longrightarrow> name sp1 = name sp"
  by (auto simp: parse_range_def split: option.splits)

lemma parse_components_name:
  "parse_components sp meta_str pos = Inr (sp1, e) \<Longrightarrow> name sp1 = name sp"
  by (auto simp: parse_components_def Let_def material_details_name split: option.splits if_splits)

lemma parse_step_errors:
  "parse_level_school_ritual sp meta_str = Inl err \<Longrightarrow> err = unable_to_parse sp ''level, school, or ritual''"
  "parse_casting_time sp meta_str pos = Inl err \<Longrightarrow> err = unable_to_parse sp ''casting time''"
  "parse_range sp meta_str pos = Inl err \<Longrightarrow> err = unable_to_parse sp ''range''"
  "parse_components sp meta_str pos = Inl err \<Longrightarrow> err = unable_to_parse sp ''components''"
  "parse_duration sp meta_str pos = Inl err \<Longrightarrow> err = unable_to_parse sp ''duration''"
  by (auto simp: parse_level_school_ritual_def parse_casting_time_def parse_range_def
      parse_components_def parse_duration_def Let_def split: option.splits)

lemma unable_to_parse_name: "name sp1 = name sp \<Longrightarrow> unable_to_parse sp1 what = unable_to_parse sp what"
  by (simp add: unable_to_parse_def)

lemma populate_error:
  assumes "populate_spell_metadata sp meta_str = Inl err"
  shows "err \<in> unable_to_parse sp ` {''level, school, or ritual'', ''casting time'', ''range'',
                                     ''components'', ''duration''}"
proof (cases "parse_level_school_ritual sp meta_str")
  case (Inl e)
  with assms have "err = unable_to_parse sp ''level, school, or ritual''"
    by (simp add: populate_spell_metadata_def parse_step_errors)
  then show ?thesis by simp
next
  case (Inr r1)
  obtain sp1 e1 where r1: "r1 = (sp1, e1)" by (cases r1)
  have n1: "unable_to_parse sp1 = unable_to_parse sp"
    using Inr r1 by (auto simp: unable_to_parse_def fun_eq_iff dest: parse_level_school_ritual_name)
  show ?thesis
  proof (cases "parse_casting_time sp1 meta_str e1")
    case (Inl e)
    with assms Inr r1 have "err = unable_to_parse sp1 ''casting time''"
      by (simp add: populate_spell_metadata_def parse_step_errors)
    then show ?thesis by (simp add: n1)
  next
    case (Inr r2)
    obtain sp2 e2 where r2: "r2 = (sp2, e2)" by (cases r2)
    have n2: "unable_to_parse sp2 = unable_to_parse sp"
      using Inr r2 n1 by (auto simp: unable_to_parse_def fun_eq_iff dest: parse_casting_time_name)
    show ?thesis
    proof (cases "parse_range sp2 meta_str e2")
      case (Inl e)
      with assms \<open>parse_level_school_ritual sp meta_str = Inr r1\<close> r1 Inr r2
      have "err = unable_to_parse sp2 ''range''"
        by (simp add: populate_spell_metadata_def parse_step_errors)
      then show ?thesis by (simp add: n2)
    next
      case r3: (Inr r3)
      obtain sp3 e3 where r3': "r3 = (sp3, e3)" by (cases r3)
      have n3: "unable_to_parse sp3 = unable_to_parse sp"
        using r3 r3' n2 by (auto simp: unable_to_parse_def fun_eq_iff dest: parse_range_name)
      show ?thesis
      proof (cases "parse_components sp3 meta_str e3")
        case (Inl e)
        with assms \<open>parse_level_school_ritual sp meta_str = Inr r1\<close> r1 Inr r2 r3 r3'
        have "err = unable_to_parse sp3 ''components''"
          by (simp add: populate_spell_metadata_def parse_step_errors)
        then show ?thesis by (simp add: n3)
      next
        case r4: (Inr r4)
        obtain sp4 e4 where r4': "r4 = (sp4, e4)" by (cases r4)
        have n4: "unable_to_parse sp4 = unable_to_parse sp"
          using r4 r4' n3 by (auto simp: unable_to_parse_def fun_eq_iff dest: parse_components_name)
        from assms \<open>parse_level_school_ritual sp meta_str = Inr r1\<close> r1 Inr r2 r3 r3' r4 r4'
        have "parse_duration sp4 meta_str e4 = Inl err"
          by (simp add: populate_spell_metadata_def)
        then have "err = unable_to_parse sp4 ''duration''"
          by (rule parse_step_errors)
        then show ?thesis by (simp add: n4)
      qed
    qed
  qed
qed

text \<open>
  Claim C1, as the code has it. When the metadata block of an entry does not match
  the level and school patterns or lacks one of the four labels,
  \<open>populate_spell_metadata\<close> raises a \<open>RuntimeError\<close> that names the entry and the part
  that could not be parsed, and nothing catches it: \<open>create_spell_dict\<close> ends with
  that error at this entry, whatever entries follow. (The claim has the entry
  dropped and the batch continued; the source raises, with the message "Aborting".)
\<close>

theorem metadata_failure_aborts_batch:
  assumes "create_spell_dict before ex = Inr ex1"
    and "content_loop nodes [[], []] 0 = (content, segment, non_string)"
    and "segment \<noteq> 0"
    and "populate_spell_metadata (new_spell spell_name) (py_strip (content ! 0)) = Inl err"
  shows "create_spell_dict (before @ (spell_name, Some nodes) # rest) ex = Inl err
         \<and> err \<in> unable_to_parse (new_spell spell_name) `
               {''level, school, or ritual'', ''casting time'', ''range'', ''components'', ''duration''}"
proof
  have "create_spell ex1 spell_name (Some nodes) = Inl err"
    using assms(2,3,4) by (simp add: create_spell_def)
  then show "create_spell_dict (before @ (spell_name, Some nodes) # rest) ex = Inl err"
    using assms(1) by (simp add: create_spell_dict_append)
  show "err \<in> unable_to_parse (new_spell spell_name) `
               {''level, school, or ritual'', ''casting time'', ''range'', ''components'', ''duration''}"
    using assms(4) by (rule populate_error)
qed

theorem metadata_failure_aborts_batch_witness:
  "create_spell_dict ([] @ (''Blur'', Some [NStr ''Blur'', NStr ''**Duration:** 1 round'']) # [(''Fly'', Some good_content)])
     SRD_5_Extractor
   = Inl (unable_to_parse (new_spell ''Blur'') ''level, school, or ritual'')"
proof -
  have h1: "create_spell_dict [] SRD_5_Extractor = Inr SRD_5_Extractor" by simp
  have h2: "content_loop [NStr ''Blur'', NStr ''**Duration:** 1 round''] [[], []] 0
            = ([''Blur'' @ [nl, nl] @ ''**Duration:** 1 round'' @ [nl, nl], []], 1, False)"
    by code_simp
  have h3: "(1::nat) \<noteq> 0" by simp
  have h4: "populate_spell_metadata (new_spell ''Blur'')
              (py_strip ([''Blur'' @ [nl, nl] @ ''**Duration:** 1 round'' @ [nl, nl], []] ! 0))
            = Inl (unable_to_parse (new_spell ''Blur'') ''level, school, or ritual'')"
    by code_simp
  from metadata_failure_aborts_batch [OF h1 h2 h3 h4] show ?thesis by blast
qed

theorem batch_aborts_counterexample:
  "create_spell_dict [(''Blur'', Some no_range_content), (''Fly'', Some good_content)] SRD_5_Extractor
     = Inl (RuntimeError (''Unexpectedly unable to parse spell range for spell '' @ dq @ ''Blur'' @ dq
                          @ ''. Aborting.''))
   \<and> create_spell_dict [(''Fly'', Some good_content)] SRD_5_Extractor
     = Inr \<lparr>spells = [(''Fly'', good_record ''Fly'')], printed = []\<rparr>"
  unfolding good_content_def no_range_content_def good_record_def by code_simp

section \<open>The metadata parser\<close>

subsection \<open>What the patterns match\<close>

text \<open>
  A search returns the leftmost position at which the pattern matches, and a match
  of the cantrip pattern has the shape of the pattern: the school is the run of word
  characters between the opening emphasis character and \<open>cantrip\<close>.
\<close>

lemma scan_Some:
  "scan m i s = Some (e, g) \<Longrightarrow>
   \<exists>j n. j \<le> length s \<and> m (drop j s) = Some (n, g) \<and> e = i + j + n
          \<and> (\<forall>k<j. m (drop k s) = None)"
proof (induction s arbitrary: i)
  case Nil
  then show ?case by (auto split: option.splits)
next
  case (Cons c cs)
  show ?case
  proof (cases "m (c # cs)")
    case None
    with Cons.prems have "scan m (Suc i) cs = Some (e, g)" by simp
    from Cons.IH [OF this] obtain j n where j: "j \<le> length cs" "m (drop j cs) = Some (n, g)"
      "e = Suc i + j + n" "\<forall>k<j. m (drop k cs) = None" by blast
    have "\<forall>k<Suc j. m (drop k (c # cs)) = None"
    proof (intro allI impI)
      fix k assume "k < Suc j"
      then show "m (drop k (c # cs)) = None"
        using None j(4) by (cases k) simp_all
    qed
    with j show ?thesis
      by (intro exI [of _ "Suc j"] exI [of _ n]) simp
  next
    case (Some r)
    obtain n g' where r: "r = (n, g')" by (cases r)
    with Some Cons.prems have "g' = g" "e = i + n" by simp_all
    with Some r show ?thesis
      by (intro exI [of _ 0] exI [of _ n]) simp
  qed
qed

lemma starts_with_split: "starts_with p s \<Longrightarrow> s = p @ drop (length p) s"
  unfolding starts_with_def by (metis append_take_drop_id)

lemma ritual_tail_shape:
  assumes "ritual_tail s = Some (n, rit)"
  shows "(rit = None \<or> rit = Some '' (ritual)'')
         \<and> s = (case rit of None \<Rightarrow> [] | Some r \<Rightarrow> r) @ ''*'' @ drop n s"
proof (cases "starts_with '' (ritual)*'' s")
  case True
  with assms have "n = 10" "rit = Some '' (ritual)''" by (simp_all add: ritual_tail_def)
  with starts_with_split [OF True] show ?thesis by (simp add: eval_nat_numeral)
next
  case False
  with assms have st: "starts_with ''*'' s" and "n = 1" "rit = None"
    by (simp_all add: ritual_tail_def split: if_splits)
  with starts_with_split [OF st] show ?thesis by simp
qed

lemma m_cantrip_shape:
  assumes "m_cantrip_school_ritual s = Some (n, g1, g2)"
  shows "g1 \<noteq> [] \<and> list_all is_word g1 \<and> (g2 = None \<or> g2 = Some '' (ritual)'')
         \<and> s = ''*'' @ g1 @ '' cantrip'' @ (case g2 of None \<Rightarrow> [] | Some r \<Rightarrow> r) @ ''*'' @ drop n s"
proof -
  define r where "r = dropWhile is_word (drop 1 s)"
  from assms have st: "starts_with ''*'' s"
    by (simp add: m_cantrip_school_ritual_def split: if_splits)
  from assms st have w: "takeWhile is_word (drop 1 s) \<noteq> []" and c: "starts_with '' cantrip'' r"
    by (simp_all add: m_cantrip_school_ritual_def Let_def r_def split: if_splits)
  from assms st w c obtain k where t: "ritual_tail (drop 8 r) = Some (k, g2)"
    and n: "n = 1 + length g1 + 8 + k" and g1: "g1 = takeWhile is_word (drop 1 s)"
    by (auto simp: m_cantrip_school_ritual_def Let_def r_def split: option.splits)
  have s1: "s = ''*'' @ drop 1 s" using starts_with_split [OF st] by simp
  have s2: "drop 1 s = g1 @ r" by (simp add: g1 r_def)
  have s3: "r = '' cantrip'' @ drop 8 r" using starts_with_split [OF c] by (simp add: eval_nat_numeral)
  note g2 = ritual_tail_shape [OF t, THEN conjunct1]
  note s4 = ritual_tail_shape [OF t, THEN conjunct2]
  have d: "drop n s = drop k (drop 8 r)"
  proof -
    have "drop n s = drop (length g1 + 8 + k) (drop 1 s)" by (simp add: n ac_simps)
    also have "\<dots> = drop (8 + k) r" unfolding s2 by simp
    also have "\<dots> = drop k (drop 8 r)" by (simp add: ac_simps)
    finally show ?thesis .
  qed
  have "s = ''*'' @ g1 @ '' cantrip'' @ (case g2 of None \<Rightarrow> [] | Some r \<Rightarrow> r) @ ''*'' @ drop n s"
    unfolding d using s1 s2 s3 s4 by (metis append_assoc)
  moreover have "list_all is_word g1"
    unfolding g1 list_all_iff by (auto dest: set_takeWhileD)
  ultimately show ?thesis using w g1 g2 by simp
qed

subsection \<open>The steps of the parser\<close>

lemma populate_steps:
  assumes "populate_spell_metadata sp meta_str = Inr sp'"
  obtains sp1 e1 sp2 e2 sp3 e3 sp4 e4 where
    "parse_level_school_ritual sp meta_str = Inr (sp1, e1)"
    "parse_casting_time sp1 meta_str e1 = Inr (sp2, e2)"
    "parse_range sp2 meta_str e2 = Inr (sp3, e3)"
    "parse_components sp3 meta_str e3 = Inr (sp4, e4)"
    "parse_duration sp4 meta_str e4 = Inr sp'"
  using assms unfolding populate_spell_metadata_def
  by (auto split: sum.splits)

lemma parse_level_school_ritual_frame:
  assumes "parse_level_school_ritual sp meta_str = Inr (sp1, e)"
  shows "classes sp1 = classes sp \<and> source sp1 = source sp \<and> rules sp1 = rules sp
         \<and> material_text sp1 = material_text sp \<and> material_cost sp1 = material_cost sp"
  using assms unfolding parse_level_school_ritual_def
  by (auto split: option.splits)

lemma parse_casting_time_frame:
  assumes "parse_casting_time sp meta_str pos = Inr (sp1, e)"
  shows "level sp1 = level sp \<and> school sp1 = school sp \<and> ritual sp1 = ritual sp
         \<and> classes sp1 = classes sp \<and> source sp1 = source sp
         \<and> material_text sp1 = material_text sp \<and> material_cost sp1 = material_cost sp"
  using assms unfolding parse_casting_time_def Let_def
  by (auto split: option.splits if_splits)

lemma parse_range_frame:
  assumes "parse_range sp meta_str pos = Inr (sp1, e)"
  shows "level sp1 = level sp \<and> school sp1 = school sp \<and> ritual sp1 = ritual sp
         \<and> classes sp1 = classes sp \<and> source sp1 = source sp \<and> rules sp1 = rules sp
         \<and> material_text sp1 = material_text sp \<and> material_cost sp1 = material_cost sp"
  using assms unfolding parse_range_def
  by (auto split: option.splits)

lemma material_details_frame:
  "level (material_details sp) = level sp \<and> school (material_details sp) = school sp
   \<and> ritual (material_details sp) = ritual sp \<and> classes (material_details sp) = classes sp
   \<and> source (material_details sp) = source sp \<and> rules (material_details sp) = rules sp
   \<and> material (material_details sp) = material sp"
  unfolding material_details_def Let_def
  by (simp split: option.splits)

lemma parse_components_frame:
  assumes "parse_components sp meta_str pos = Inr (sp1, e)"
  shows "level sp1 = level sp \<and> school sp1 = school sp \<and> ritual sp1 = ritual sp
         \<and> classes sp1 = classes sp \<and> source sp1 = source sp \<and> rules sp1 = rules sp"
  using assms unfolding parse_components_def Let_def
  by (auto simp: material_details_frame split: option.splits if_splits)

lemma parse_duration_frame:
  assumes "parse_duration sp meta_str pos = Inr sp1"
  shows "level sp1 = level sp \<and> school sp1 = school sp \<and> ritual sp1 = ritual sp
         \<and> classes sp1 = classes sp \<and> source sp1 = source sp \<and> rules sp1 = rules sp
         \<and> material sp1 = material sp \<and> material_costly sp1 = material_costly sp
         \<and> material_consumed sp1 = material_consumed sp
         \<and> material_text sp1 = material_text sp \<and> material_cost sp1 = material_cost sp"
  using assms unfolding parse_duration_def Let_def
  by (auto split: option.splits)




lemma parse_duration_result:
  assumes "parse_duration sp meta_str pos = Inr sp'"
  obtains e g where "re_search m_duration meta_str pos = Some (e, g)"
    "case conc_dur_search g of
       Some (ce, c) \<Rightarrow> concentration sp' = Some True \<and> duration sp' = Some c
     | None \<Rightarrow> concentration sp' = Some False
               \<and> duration sp' = Some (if contains ''Instantaneous'' g then ''Instant'' else g)"
proof (cases "re_search m_duration meta_str pos")
  case None
  with assms show thesis by (simp add: parse_duration_def)
next
  case (Some r)
  obtain e g where r: "r = (e, g)" by (cases r)
  have "case conc_dur_search g of
       Some (ce, c) \<Rightarrow> concentration sp' = Some True \<and> duration sp' = Some c
     | None \<Rightarrow> concentration sp' = Some False
               \<and> duration sp' = Some (if contains ''Instantaneous'' g then ''Instant'' else g)"
    using assms Some r unfolding parse_duration_def Let_def
    by (auto split: option.splits)
  with Some r show thesis by (auto intro: that)
qed

lemma parse_level_end:
  assumes "parse_level_school_ritual sp meta_str = Inr (sp1, e1)"
  shows "level_end meta_str = Some e1"
  using assms unfolding parse_level_school_ritual_def level_end_def
  by (auto split: option.splits)

lemma parse_casting_time_end:
  assumes "parse_casting_time sp meta_str pos = Inr (sp1, e)"
  shows "\<exists>g. re_search m_casting_time meta_str pos = Some (e, g)"
  using assms unfolding parse_casting_time_def Let_def
  by (auto split: option.splits)

lemma parse_range_end:
  assumes "parse_range sp meta_str pos = Inr (sp1, e)"
  shows "\<exists>g. re_search m_range meta_str pos = Some (e, g)"
  using assms unfolding parse_range_def
  by (auto split: option.splits)

lemma parse_components_end:
  assumes "parse_components sp meta_str pos = Inr (sp1, e)"
  shows "\<exists>g. re_search m_components meta_str pos = Some (e, g)"
  using assms unfolding parse_components_def Let_def
  by (auto split: option.splits)

text \<open>
  Claim C8, as the code has it. The concentration flag and the duration of a parsed
  record are decided by the text that the duration pattern captures in the metadata
  block, and by nothing else. When the concentration pattern is found in that text,
  \<open>concentration\<close> is true and the duration is the group of that pattern; otherwise
  \<open>concentration\<close> is false and the duration is the captured text itself, or
  \<open>Instant\<close> when the captured text contains \<open>Instantaneous\<close> anywhere (the test of the
  source is \<open>'Instantaneous' in spell.duration\<close>), whatever else it holds. The stored
  duration is that value as it stands: the replacement of \<open>one\<close> by \<open>1\<close> that follows in
  the source is computed and dropped.
\<close>

theorem duration_fields:
  assumes "populate_spell_metadata sp meta_str = Inr sp'"
  shows "\<exists>g. captured_duration meta_str = Some g
           \<and> (case conc_dur_search g of
                Some (ce, c) \<Rightarrow> concentration sp' = Some True \<and> duration sp' = Some c
              | None \<Rightarrow> concentration sp' = Some False
                        \<and> duration sp' = Some (if contains ''Instantaneous'' g then ''Instant'' else g))"
proof -
  from assms obtain sp1 e1 sp2 e2 sp3 e3 sp4 e4 where s:
    "parse_level_school_ritual sp meta_str = Inr (sp1, e1)"
    "parse_casting_time sp1 meta_str e1 = Inr (sp2, e2)"
    "parse_range sp2 meta_str e2 = Inr (sp3, e3)"
    "parse_components sp3 meta_str e3 = Inr (sp4, e4)"
    "parse_duration sp4 meta_str e4 = Inr sp'"
    by (rule populate_steps)
  from s(5) obtain e g where d: "re_search m_duration meta_str e4 = Some (e, g)"
    and r: "case conc_dur_search g of
       Some (ce, c) \<Rightarrow> concentration sp' = Some True \<and> duration sp' = Some c
     | None \<Rightarrow> concentration sp' = Some False
               \<and> duration sp' = Some (if contains ''Instantaneous'' g then ''Instant'' else g)"
    by (rule parse_duration_result)
  from parse_casting_time_end [OF s(2)] obtain g2
    where c2: "re_search m_casting_time meta_str e1 = Some (e2, g2)" by blast
  from parse_range_end [OF s(3)] obtain g3
    where c3: "re_search m_range meta_str e2 = Some (e3, g3)" by blast
  from parse_components_end [OF s(4)] obtain g4
    where c4: "re_search m_components meta_str e3 = Some (e4, g4)" by blast
  have "captured_duration meta_str = Some g"
    by (simp add: captured_duration_def parse_level_end [OF s(1)] c2 c3 c4 d)
  with r show ?thesis by blast
qed

theorem duration_fields_witness:
  "captured_duration cantrip_metadata = Some ''Concentration, up to 10 minutes''
   \<and> conc_dur_search ''Concentration, up to 10 minutes'' = Some (31, ''10 minutes'')
   \<and> concentration cantrip_record = Some True
   \<and> duration cantrip_record = Some ''10 minutes''
   \<and> captured_duration diamond_metadata = Some ''one minute''
   \<and> concentration diamond_record = Some False
   \<and> duration diamond_record = Some ''one minute''
   \<and> py_replace ''one '' ''1 '' ''one minute'' = ''1 minute''"
proof -
  have p1: "populate_spell_metadata (new_spell ''Spark'') cantrip_metadata = Inr cantrip_record"
    unfolding cantrip_metadata_def cantrip_record_def by code_simp
  have p2: "populate_spell_metadata (new_spell ''Revive'') diamond_metadata = Inr diamond_record"
    unfolding diamond_metadata_def diamond_record_def by code_simp
  have g1: "captured_duration cantrip_metadata = Some ''Concentration, up to 10 minutes''"
    unfolding cantrip_metadata_def by code_simp
  have g2: "captured_duration diamond_metadata = Some ''one minute''"
    unfolding diamond_metadata_def by code_simp
  have c1: "conc_dur_search ''Concentration, up to 10 minutes'' = Some (31, ''10 minutes'')"
    by code_simp
  have c2: "conc_dur_search ''one minute'' = None" "\<not> contains ''Instantaneous'' ''one minute''"
    by code_simp+
  have r: "py_replace ''one '' ''1 '' ''one minute'' = ''1 minute''" by code_simp
  from duration_fields [OF p1] g1 c1
  have d1: "concentration cantrip_record = Some True \<and> duration cantrip_record = Some ''10 minutes''"
    by auto
  from duration_fields [OF p2] g2 c2
  have d2: "concentration diamond_record = Some False \<and> duration diamond_record = Some ''one minute''"
    by auto
  from g1 g2 c1 r d1 d2 show ?thesis by blast
qed

text \<open>
  The captured text need not be the word \<open>Instantaneous\<close> for the short label to
  replace it: a duration that only starts with the word is stored as \<open>Instant\<close>, and
  the rest of the captured text is lost.
\<close>

theorem instantaneous_substring_counterexample:
  "populate_spell_metadata (new_spell ''Ward'') instantaneous_metadata = Inr instantaneous_record
   \<and> captured_duration instantaneous_metadata = Some ''Instantaneous or 1 hour (see below)''
   \<and> conc_dur_search ''Instantaneous or 1 hour (see below)'' = None
   \<and> ''Instantaneous or 1 hour (see below)'' \<noteq> ''Instantaneous''
   \<and> duration instantaneous_record = Some ''Instant''
   \<and> duration instantaneous_record \<noteq> Some ''Instantaneous or 1 hour (see below)''"
proof (intro conjI)
  show "populate_spell_metadata (new_spell ''Ward'') instantaneous_metadata = Inr instantaneous_record"
    unfolding instantaneous_metadata_def instantaneous_record_def by code_simp
  show "captured_duration instantaneous_metadata = Some ''Instantaneous or 1 hour (see below)''"
    unfolding instantaneous_metadata_def by code_simp
  show "conc_dur_search ''Instantaneous or 1 hour (see below)'' = None"
    by code_simp
  show "''Instantaneous or 1 hour (see below)'' \<noteq> ''Instantaneous''"
    by simp
  show "duration instantaneous_record = Some ''Instant''"
    by (simp add: instantaneous_record_def)
  show "duration instantaneous_record \<noteq> Some ''Instantaneous or 1 hour (see below)''"
    by (simp add: instantaneous_record_def)
qed

section \<open>The cost of the material component\<close>

lemma digit_val_chr: "d < 10 \<Longrightarrow> digit_val (digit_chr d) = d"
proof -
  assume "d < 10"
  then have "d \<in> {0, 1, 2, 3, 4, 5, 6, 7, 8, 9}" by auto
  then show ?thesis
    by (auto simp: digit_val_def digit_chr_def)
qed

lemma is_digit_chr: "d < 10 \<Longrightarrow> is_digit (digit_chr d)"
proof -
  assume "d < 10"
  then have "d \<in> {0, 1, 2, 3, 4, 5, 6, 7, 8, 9}" by auto
  then show ?thesis
    by (auto simp: is_digit_def digit_chr_def)
qed

lemma nat_of_digits_snoc: "nat_of_digits (ds @ [c]) = 10 * nat_of_digits ds + digit_val c"
  by (simp add: nat_of_digits_def)

lemma nat_of_digits_str_nat: "nat_of_digits (str_nat n) = n"
proof (induction n rule: str_nat.induct)
  case (1 n)
  show ?case
  proof (cases "n < 10")
    case True
    then show ?thesis
      by (subst str_nat.simps) (simp add: nat_of_digits_def digit_val_chr)
  next
    case False
    with 1 have "nat_of_digits (str_nat (n div 10)) = n div 10" by simp
    with False show ?thesis
      by (subst str_nat.simps) (simp add: nat_of_digits_snoc digit_val_chr)
  qed
qed

lemma str_nat_digits: "str_nat n \<noteq> [] \<and> list_all is_digit (str_nat n)"
proof (induction n rule: str_nat.induct)
  case (1 n)
  show ?case
  proof (cases "n < 10")
    case True
    then show ?thesis
      by (subst (1 2) str_nat.simps) (simp add: is_digit_chr)
  next
    case False
    with 1 have "list_all is_digit (str_nat (n div 10))" by simp
    with False show ?thesis
      by (subst (1 2) str_nat.simps) (simp add: is_digit_chr)
  qed
qed

lemma sum_list_mset_cong: "mset xs = mset ys \<Longrightarrow> sum_list xs = sum_list (ys :: nat list)"
  by (metis sum_mset_sum_list)

lemma foldl_cost_step: "foldl cost_step a gs = a + sum_list (map amount gs)"
  by (induction gs arbitrary: a) (simp_all add: cost_step_def amount_def)

lemma material_cost_sum_eq: "material_cost_sum txt = sum_list (map amount (mat_cost_finditer txt))"
  by (simp add: material_cost_sum_def foldl_cost_step)

lemma material_cost_sum_Nil: "material_cost_sum [] = 0"
  by (simp add: material_cost_sum_def mat_cost_finditer_def)

lemma parse_components_flags:
  assumes "parse_components sp meta_str pos = Inr (sp1, e)" and "material_cost sp = None"
  shows "(material sp1 = Some True \<longrightarrow> material_text sp1 \<noteq> None)
         \<and> ((material_cost sp1 \<noteq> None) = (material_costly sp1 = Some True))"
  using assms unfolding parse_components_def material_details_def Let_def
  by (auto split: option.splits if_splits)

lemma material_details_cost:
  assumes "material_text sp = Some txt" and "material_costly sp = Some False"
    and "material_consumed sp = Some False" and "material_cost sp = None"
  shows "material_text (material_details sp) = Some txt
         \<and> material_costly (material_details sp) = Some (0 < material_cost_sum txt)
         \<and> material_cost (material_details sp)
             = (if 0 < material_cost_sum txt then Some (str_nat (material_cost_sum txt) @ ''gp'') else None)
         \<and> material_consumed (material_details sp) = Some (contains ''which the spell consumes'' txt)"
  using assms unfolding material_details_def Let_def by simp

lemma material_details_no_text:
  assumes "material_text sp = None" and "material_costly sp = Some False"
    and "material_consumed sp = Some False" and "material_cost sp = None"
  shows "material_text (material_details sp) = Some []
         \<and> material_costly (material_details sp) = Some False
         \<and> material_cost (material_details sp) = None
         \<and> material_consumed (material_details sp) = Some False"
  using assms unfolding material_details_def by simp

lemma parse_components_cost:
  assumes "parse_components sp meta_str pos = Inr (sp1, e)"
    and "material_text sp = None" and "material_cost sp = None"
    and "material sp1 = Some True"
  shows "\<exists>txt. material_text sp1 = Some txt
           \<and> material_costly sp1 = Some (0 < material_cost_sum txt)
           \<and> material_cost sp1 = (if 0 < material_cost_sum txt
                                   then Some (str_nat (material_cost_sum txt) @ ''gp'') else None)
           \<and> material_consumed sp1 = Some (contains ''which the spell consumes'' txt)"
proof (cases "re_search m_components meta_str pos")
  case None
  with assms(1) show ?thesis by (simp add: parse_components_def)
next
  case (Some r)
  obtain e' g1 where r: "r = (e', g1)" by (cases r)
  define types where "types = (if CHR ''('' \<in> set g1 then split_chr CHR ''('' g1 ! 0 else g1)"
  define sp2 where "sp2 = (if CHR ''('' \<in> set g1
      then sp\<lparr>material_text := Some (split_chr CHR '')'' (split_chr CHR ''('' g1 ! 1) ! 0)\<rparr>
      else sp)
     \<lparr>verbal := Some (CHR ''V'' \<in> set types), somatic := Some (CHR ''S'' \<in> set types),
      material := Some (CHR ''M'' \<in> set types), material_costly := Some False,
      material_consumed := Some False\<rparr>"
  have res: "sp1 = (if material sp2 = Some True then material_details sp2 else sp2)"
    using assms(1) Some r unfolding parse_components_def Let_def sp2_def types_def by simp
  have m: "material sp2 = Some True"
    using assms(4) res by (simp add: material_details_frame split: if_splits)
  with res have sp1: "sp1 = material_details sp2" by simp
  have base: "material_costly sp2 = Some False" "material_consumed sp2 = Some False"
    "material_cost sp2 = None"
    using assms(3) by (simp_all add: sp2_def)
  show ?thesis
  proof (cases "material_text sp2")
    case None
    from material_details_no_text [OF None base] show ?thesis
      unfolding sp1
      by (intro exI [of _ "[]"]) (simp add: material_cost_sum_Nil)
  next
    case (Some mt)
    from material_details_cost [OF Some base] show ?thesis
      unfolding sp1 by (intro exI [of _ mt]) simp
  qed
qed

lemma populate_material_cost:
  assumes "populate_spell_metadata sp meta_str = Inr sp'"
    and "material_text sp = None" and "material_cost sp = None"
    and "material sp' = Some True"
  shows "\<exists>mt. material_text sp' = Some mt
           \<and> material_costly sp' = Some (0 < material_cost_sum mt)
           \<and> material_cost sp' = (if 0 < material_cost_sum mt
                                   then Some (str_nat (material_cost_sum mt) @ ''gp'') else None)
           \<and> material_consumed sp' = Some (contains ''which the spell consumes'' mt)"
proof -
  from assms(1) obtain sp1 e1 sp2 e2 sp3 e3 sp4 e4 where s:
    "parse_level_school_ritual sp meta_str = Inr (sp1, e1)"
    "parse_casting_time sp1 meta_str e1 = Inr (sp2, e2)"
    "parse_range sp2 meta_str e2 = Inr (sp3, e3)"
    "parse_components sp3 meta_str e3 = Inr (sp4, e4)"
    "parse_duration sp4 meta_str e4 = Inr sp'"
    by (rule populate_steps)
  from parse_level_school_ritual_frame [OF s(1)] parse_casting_time_frame [OF s(2)]
    parse_range_frame [OF s(3)] assms(2,3)
  have none: "material_text sp3 = None" "material_cost sp3 = None" by simp_all
  note f = parse_duration_frame [OF s(5)]
  from f assms(4) have "material sp4 = Some True" by simp
  from parse_components_cost [OF s(4) none this] show ?thesis
    using f by simp
qed

lemma parse_components_no_material:
  assumes "parse_components sp meta_str pos = Inr (sp1, e)" and "material_cost sp = None"
    and "material sp1 \<noteq> Some True"
  shows "material sp1 = Some False \<and> material_costly sp1 = Some False
         \<and> material_cost sp1 = None \<and> material_consumed sp1 = Some False"
  using assms unfolding parse_components_def Let_def
  by (auto simp: material_details_frame split: option.splits if_splits)

lemma populate_no_material:
  assumes "populate_spell_metadata sp meta_str = Inr sp'"
    and "material_cost sp = None" and "material sp' \<noteq> Some True"
  shows "material sp' = Some False \<and> material_costly sp' = Some False
         \<and> material_cost sp' = None \<and> material_consumed sp' = Some False"
proof -
  from assms(1) obtain sp1 e1 sp2 e2 sp3 e3 sp4 e4 where s:
    "parse_level_school_ritual sp meta_str = Inr (sp1, e1)"
    "parse_casting_time sp1 meta_str e1 = Inr (sp2, e2)"
    "parse_range sp2 meta_str e2 = Inr (sp3, e3)"
    "parse_components sp3 meta_str e3 = Inr (sp4, e4)"
    "parse_duration sp4 meta_str e4 = Inr sp'"
    by (rule populate_steps)
  from parse_level_school_ritual_frame [OF s(1)] parse_casting_time_frame [OF s(2)]
    parse_range_frame [OF s(3)] assms(2)
  have none: "material_cost sp3 = None" by simp
  note f = parse_duration_frame [OF s(5)]
  from f assms(3) have "material sp4 \<noteq> Some True" by simp
  from parse_components_no_material [OF s(4) none this] show ?thesis
    using f by simp
qed

text \<open>
  Claim C10, as the code has it. The cost computed for a material text is the sum of
  the amounts of the matches of the cost pattern, so it is the same for two texts
  whose matches have the same amounts in any order, and its decimal form reads back
  as the sum. The cost is computed under \<open>if spell.material:\<close> only. In a parsed record
  whose \<open>material\<close> is true, \<open>material_costly\<close> is true exactly when that sum is
  positive, \<open>material_cost\<close> is then the decimal form of the sum followed by \<open>gp\<close> (and
  absent otherwise), and \<open>material_consumed\<close> says whether the text contains
  \<open>which the spell consumes\<close>. In a parsed record whose \<open>material\<close> is not true it is
  false, and \<open>material_costly\<close> and \<open>material_consumed\<close> are false and \<open>material_cost\<close> is
  absent, whatever a parenthesised clause of the components says.
\<close>

theorem material_cost_aggregate:
  "material_cost_sum mt = sum_list (map amount (mat_cost_finditer mt))
   \<and> (mset (map amount (mat_cost_finditer mt')) = mset (map amount (mat_cost_finditer mt))
        \<longrightarrow> material_cost_sum mt' = material_cost_sum mt)
   \<and> nat_of_digits (str_nat (material_cost_sum mt)) = material_cost_sum mt
   \<and> (populate_spell_metadata (new_spell spell_name) meta_str = Inr sp'
        \<longrightarrow> (if material sp' = Some True
             then \<exists>t. material_text sp' = Some t
                    \<and> material_costly sp' = Some (0 < material_cost_sum t)
                    \<and> material_cost sp' = (if 0 < material_cost_sum t
                                            then Some (str_nat (material_cost_sum t) @ ''gp'') else None)
                    \<and> material_consumed sp' = Some (contains ''which the spell consumes'' t)
             else material sp' = Some False \<and> material_costly sp' = Some False
                    \<and> material_cost sp' = None \<and> material_consumed sp' = Some False))"
proof (intro conjI impI)
  show "material_cost_sum mt = sum_list (map amount (mat_cost_finditer mt))"
    by (rule material_cost_sum_eq)
  show "material_cost_sum mt' = material_cost_sum mt"
    if "mset (map amount (mat_cost_finditer mt')) = mset (map amount (mat_cost_finditer mt))"
    using that by (simp add: material_cost_sum_eq sum_list_mset_cong)
  show "nat_of_digits (str_nat (material_cost_sum mt)) = material_cost_sum mt"
    by (rule nat_of_digits_str_nat)
  show "if material sp' = Some True
        then \<exists>t. material_text sp' = Some t
               \<and> material_costly sp' = Some (0 < material_cost_sum t)
               \<and> material_cost sp' = (if 0 < material_cost_sum t
                                       then Some (str_nat (material_cost_sum t) @ ''gp'') else None)
               \<and> material_consumed sp' = Some (contains ''which the spell consumes'' t)
        else material sp' = Some False \<and> material_costly sp' = Some False
               \<and> material_cost sp' = None \<and> material_consumed sp' = Some False"
    if p: "populate_spell_metadata (new_spell spell_name) meta_str = Inr sp'"
  proof (cases "material sp' = Some True")
    case True
    have "material_text (new_spell spell_name) = None" "material_cost (new_spell spell_name) = None"
      by (simp_all add: new_spell_def Spell_def)
    from populate_material_cost [OF p this True] True show ?thesis by simp
  next
    case False
    have "material_cost (new_spell spell_name) = None"
      by (simp add: new_spell_def Spell_def)
    from populate_no_material [OF p this False] False show ?thesis by simp
  qed
qed

theorem material_cost_aggregate_witness:
  "material_cost_sum ''a diamond worth 300 gp, which the spell consumes'' = 300
   \<and> material_costly diamond_record = Some True
   \<and> material_cost diamond_record = Some ''300gp''
   \<and> material_consumed diamond_record = Some True
   \<and> material_cost_sum ''pearls worth 100 gp and incense worth 25 gp'' = 125
   \<and> material_cost_sum ''incense worth 25 gp and pearls worth 100 gp'' = 125
   \<and> material_costly cantrip_record = Some False
   \<and> material_cost cantrip_record = None"
proof -
  have p: "populate_spell_metadata (new_spell ''Revive'') diamond_metadata = Inr diamond_record"
    unfolding diamond_metadata_def diamond_record_def by code_simp
  have pm: "material diamond_record = Some True" by (simp add: diamond_record_def)
  have q: "populate_spell_metadata (new_spell ''Spark'') cantrip_metadata = Inr cantrip_record"
    unfolding cantrip_metadata_def cantrip_record_def by code_simp
  have qm: "material cantrip_record \<noteq> Some True" by (simp add: cantrip_record_def)
  have c: "material_cost_sum ''a diamond worth 300 gp, which the spell consumes'' = 300"
    "str_nat 300 = ''300''"
    "contains ''which the spell consumes'' ''a diamond worth 300 gp, which the spell consumes''"
    by code_simp+
  have o: "mat_cost_finditer ''pearls worth 100 gp and incense worth 25 gp'' = [''100'', ''25'']"
    "mat_cost_finditer ''incense worth 25 gp and pearls worth 100 gp'' = [''25'', ''100'']"
    by code_simp+
  have a: "amount ''100'' + amount ''25'' = 125" by code_simp
  have m: "mset (map amount (mat_cost_finditer ''incense worth 25 gp and pearls worth 100 gp''))
           = mset (map amount (mat_cost_finditer ''pearls worth 100 gp and incense worth 25 gp''))"
    unfolding o by (simp add: add.commute)
  note agg = material_cost_aggregate [of "''pearls worth 100 gp and incense worth 25 gp''"
      "''incense worth 25 gp and pearls worth 100 gp''" "''Revive''" diamond_metadata diamond_record]
  note agg2 = material_cost_aggregate [of "[]" "[]" "''Spark''" cantrip_metadata cantrip_record]
  from agg have s1: "material_cost_sum ''pearls worth 100 gp and incense worth 25 gp'' = 125"
    unfolding o by (simp add: a)
  from agg m have s2: "material_cost_sum ''incense worth 25 gp and pearls worth 100 gp''
                       = material_cost_sum ''pearls worth 100 gp and incense worth 25 gp''"
    by blast
  from agg p pm obtain t where t: "material_text diamond_record = Some t"
    "material_costly diamond_record = Some (0 < material_cost_sum t)"
    "material_cost diamond_record
       = (if 0 < material_cost_sum t then Some (str_nat (material_cost_sum t) @ ''gp'') else None)"
    "material_consumed diamond_record = Some (contains ''which the spell consumes'' t)"
    by auto
  from agg2 q qm have n: "material_costly cantrip_record = Some False"
    "material_cost cantrip_record = None"
    by auto
  from t(1) have "t = ''a diamond worth 300 gp, which the spell consumes''"
    by (simp add: diamond_record_def)
  with t c s1 s2 n show ?thesis by simp
qed

text \<open>
  A material text with a positive sum and no cost: the components carry a
  parenthesised clause that names a price, but not the material letter.
\<close>

theorem cost_without_material_counterexample:
  "populate_spell_metadata (new_spell ''Fog'') priced_focus_metadata = Inr priced_focus_record
   \<and> material_text priced_focus_record = Some ''a focus worth 100 gp''
   \<and> material_cost_sum ''a focus worth 100 gp'' = 100
   \<and> material priced_focus_record = Some False
   \<and> material_costly priced_focus_record = Some False
   \<and> material_cost priced_focus_record = None"
proof (intro conjI)
  show "populate_spell_metadata (new_spell ''Fog'') priced_focus_metadata = Inr priced_focus_record"
    unfolding priced_focus_metadata_def priced_focus_record_def by code_simp
  show "material_cost_sum ''a focus worth 100 gp'' = 100"
    by code_simp
qed (simp_all add: priced_focus_record_def)

section \<open>The class annotator\<close>

subsection \<open>The three loops, in closed form\<close>

lemma add_classes_Nil: "add_classes [] sp = sp"
  by (simp add: add_classes_def option.map_ident)

lemma add_classes_twice: "add_classes t2 (add_classes t1 sp) = add_classes (t1 @ t2) sp"
  by (simp add: add_classes_def option.map_comp comp_def)

lemma annotate_keys: "map fst (annotate f sps) = map fst sps"
  by (simp add: annotate_def case_prod_unfold comp_def)

lemma annotate_twice: "annotate f (annotate g sps) = annotate (\<lambda>k. g k @ f k) sps"
  by (simp add: annotate_def add_classes_twice case_prod_unfold comp_def)

lemma annotate_cong:
  "(\<And>k. k \<in> fst ` set sps \<Longrightarrow> f k = g k) \<Longrightarrow> annotate f sps = annotate g sps"
  unfolding annotate_def by (rule map_cong) force+

lemma has_classes_annotate:
  assumes "has_classes sps"
  shows "has_classes (annotate f sps)"
proof -
  have "distinct (map fst (annotate f sps))"
    using assms by (simp add: annotate_keys has_classes_def)
  moreover have "list_all (\<lambda>(k, sp). classes sp \<noteq> None) (annotate f sps)"
    using assms by (auto simp: has_classes_def annotate_def add_classes_def list_all_iff)
  ultimately show ?thesis by (simp add: has_classes_def)
qed

lemma update_annotate:
  assumes "distinct (map fst sps)" and "map_of sps n = Some sp" and "classes sp = Some cs"
  shows "AList.update n (sp\<lparr>classes := Some (cs @ [c])\<rparr>) sps
         = annotate (\<lambda>k. if k = n then [c] else []) sps"
  using assms
proof (induction sps)
  case Nil
  then show ?case by simp
next
  case (Cons p ps)
  obtain k s where p: "p = (k, s)" by (cases p)
  show ?case
  proof (cases "k = n")
    case True
    with Cons.prems p have s: "s = sp" by simp
    from Cons.prems p True have "n \<notin> fst ` set ps" by simp
    then have "annotate (\<lambda>k. if k = n then [c] else []) ps = annotate (\<lambda>k. []) ps"
      by (intro annotate_cong) auto
    also have "\<dots> = ps"
      by (simp add: annotate_def add_classes_Nil case_prod_unfold)
    finally show ?thesis
      using p True s Cons.prems(3) by (simp add: annotate_def add_classes_def)
  next
    case False
    with Cons p show ?thesis
      by (simp add: annotate_def add_classes_Nil)
  qed
qed

lemma map_of_classes:
  "has_classes sps \<Longrightarrow> map_of sps n = Some sp \<Longrightarrow> classes sp \<noteq> None"
  by (auto simp: has_classes_def list_all_iff dest: map_of_SomeD)

lemma list_tokens_simps:
  "list_tokens c [] k = []"
  "list_tokens c (n # ns) k = (if k = n then [c] else []) @ list_tokens c ns k"
  by (auto simp: list_tokens_def)

lemma add_spell_list_annotate:
  "has_classes sps \<Longrightarrow> add_spell_list c ns sps = Inr (annotate (list_tokens c ns) sps)"
proof (induction ns arbitrary: sps)
  case Nil
  then show ?case
    by (simp add: annotate_def list_tokens_simps add_classes_Nil case_prod_unfold)
next
  case (Cons n ns)
  show ?case
  proof (cases "map_of sps n")
    case None
    then have "n \<notin> fst ` set sps" by (simp add: map_of_eq_None_iff)
    then have "annotate (list_tokens c (n # ns)) sps = annotate (list_tokens c ns) sps"
      by (intro annotate_cong) (auto simp: list_tokens_simps)
    with None Cons show ?thesis by simp
  next
    case (Some sp)
    with Cons.prems obtain cs where cs: "classes sp = Some cs"
      using map_of_classes by blast
    from Cons.prems have d: "distinct (map fst sps)" by (simp add: has_classes_def)
    let ?sps = "annotate (\<lambda>k. if k = n then [c] else []) sps"
    have u: "AList.update n (sp\<lparr>classes := Some (cs @ [c])\<rparr>) sps = ?sps"
      using d Some cs by (rule update_annotate)
    have "has_classes ?sps" using Cons.prems by (rule has_classes_annotate)
    have e: "list_tokens c (n # ns) = (\<lambda>k. (if k = n then [c] else []) @ list_tokens c ns k)"
      by (rule ext) (simp add: list_tokens_simps)
    from Cons.IH [OF \<open>has_classes ?sps\<close>]
    have "add_spell_list c ns ?sps = Inr (annotate (list_tokens c (n # ns)) sps)"
      by (simp add: annotate_twice e)
    with Some cs u show ?thesis by simp
  qed
qed

lemma section_tokens_simps:
  "section_tokens c [] k = []"
  "section_tokens c ((l, ns) # rest) k = list_tokens c ns k @ section_tokens c rest k"
  by (simp_all add: section_tokens_def)

lemma add_class_section_annotate:
  "has_classes sps \<Longrightarrow> add_class_section c sec sps = Inr (annotate (section_tokens c sec) sps)"
proof (induction sec arbitrary: sps)
  case Nil
  then show ?case
    by (simp add: annotate_def section_tokens_simps add_classes_Nil case_prod_unfold)
next
  case (Cons p sec)
  obtain l ns where p: "p = (l, ns)" by (cases p)
  from Cons.prems have "has_classes (annotate (list_tokens c ns) sps)"
    by (rule has_classes_annotate)
  from Cons.IH [OF this] Cons.prems p show ?case
    by (simp add: add_spell_list_annotate annotate_twice section_tokens_simps)
qed

lemma class_tokens_simps:
  "class_tokens [] k = []"
  "class_tokens ((label, sec) # rest) k
     = section_tokens (split_chr CHR '' '' label ! 0) sec k @ class_tokens rest k"
  by (simp_all add: class_tokens_def)

lemma add_class_data_annotate:
  "has_classes sps \<Longrightarrow> add_class_data cd sps = Inr (annotate (class_tokens cd) sps)"
proof (induction cd arbitrary: sps)
  case Nil
  then show ?case
    by (simp add: annotate_def class_tokens_simps add_classes_Nil case_prod_unfold)
next
  case (Cons p cd)
  obtain label sec where p: "p = (label, sec)" by (cases p)
  from Cons.prems
  have "has_classes (annotate (section_tokens (split_chr CHR '' '' label ! 0) sec) sps)"
    by (rule has_classes_annotate)
  from Cons.IH [OF this] Cons.prems p show ?case
    by (simp add: add_class_section_annotate annotate_twice class_tokens_simps)
qed

lemma set_class_tokens:
  "set (class_tokens cd k)
   = {tok. \<exists>label sec l ns. (label, sec) \<in> set cd \<and> (l, ns) \<in> set sec \<and> k \<in> set ns
            \<and> tok = split_chr CHR '' '' label ! 0}"
  by (fastforce simp: class_tokens_def section_tokens_def list_tokens_def)

subsection \<open>What create_spell_dict leaves in the dictionary\<close>

lemma set_update:
  "(k', v') \<in> set (AList.update k v al) \<Longrightarrow> (k', v') = (k, v) \<or> (k', v') \<in> set al"
  by (induction al) (auto split: if_splits)

lemma populate_classes:
  assumes "populate_spell_metadata sp meta_str = Inr sp'"
  shows "classes sp' = classes sp"
proof -
  from assms obtain sp1 e1 sp2 e2 sp3 e3 sp4 e4 where s:
    "parse_level_school_ritual sp meta_str = Inr (sp1, e1)"
    "parse_casting_time sp1 meta_str e1 = Inr (sp2, e2)"
    "parse_range sp2 meta_str e2 = Inr (sp3, e3)"
    "parse_components sp3 meta_str e3 = Inr (sp4, e4)"
    "parse_duration sp4 meta_str e4 = Inr sp'"
    by (rule populate_steps)
  from parse_level_school_ritual_frame [OF s(1)] parse_casting_time_frame [OF s(2)]
    parse_range_frame [OF s(3)] parse_components_frame [OF s(4)] parse_duration_frame [OF s(5)]
  show ?thesis by simp
qed

lemma populate_optional_fields:
  assumes "populate_spell_metadata sp meta_str = Inr sp'" and "material_cost sp = None"
  shows "optional_fields_ok sp'"
proof -
  from assms(1) obtain sp1 e1 sp2 e2 sp3 e3 sp4 e4 where s:
    "parse_level_school_ritual sp meta_str = Inr (sp1, e1)"
    "parse_casting_time sp1 meta_str e1 = Inr (sp2, e2)"
    "parse_range sp2 meta_str e2 = Inr (sp3, e3)"
    "parse_components sp3 meta_str e3 = Inr (sp4, e4)"
    "parse_duration sp4 meta_str e4 = Inr sp'"
    by (rule populate_steps)
  from parse_level_school_ritual_frame [OF s(1)] parse_casting_time_frame [OF s(2)]
    parse_range_frame [OF s(3)] assms(2)
  have "material_cost sp3 = None" by simp
  from parse_components_flags [OF s(4) this] parse_duration_frame [OF s(5)]
  show ?thesis by (simp add: optional_fields_ok_def)
qed

lemma populate_spell_rules_fields:
  "classes (populate_spell_rules sp rl) = classes sp"
  "optional_fields_ok (populate_spell_rules sp rl) = optional_fields_ok sp"
  by (simp_all add: populate_spell_rules_def Let_def optional_fields_ok_def)

lemma create_spell_preserves:
  assumes step: "\<And>meta rl sp1. populate_spell_metadata (new_spell n) meta = Inr sp1
                   \<Longrightarrow> P (populate_spell_rules sp1 rl)"
    and run: "create_spell ex n info = Inr ex'"
    and inv: "list_all (\<lambda>(k, sp). P sp) (spells ex)"
  shows "list_all (\<lambda>(k, sp). P sp) (spells ex')"
proof (cases info)
  case None
  with run inv show ?thesis by (auto simp: create_spell_def print_line_def)
next
  case (Some nodes)
  obtain content segment ns where c: "content_loop nodes [[], []] 0 = (content, segment, ns)"
    by (cases "content_loop nodes [[], []] 0") auto
  show ?thesis
  proof (cases "segment = 0")
    case True
    with run inv Some c show ?thesis
      by (auto simp: create_spell_def print_line_def Let_def split: if_splits)
  next
    case False
    with run Some c obtain sp1 where
      p: "populate_spell_metadata (new_spell n) (py_strip (content ! 0)) = Inr sp1"
      and ex': "spells ex' = AList.update n (populate_spell_rules sp1 (py_strip (content ! 1))) (spells ex)"
      by (auto simp: create_spell_def print_line_def Let_def split: sum.splits if_splits)
    from step [OF p] inv show ?thesis
      unfolding ex' list_all_iff by (auto dest: set_update)
  qed
qed

lemma create_spell_keys:
  assumes "create_spell ex n info = Inr ex'" and "distinct (map fst (spells ex))"
  shows "distinct (map fst (spells ex'))"
  using assms unfolding create_spell_def Let_def
  by (auto simp: print_line_def distinct_update split: option.splits sum.splits if_splits prod.splits)

lemma create_spell_dict_preserves:
  assumes step: "\<And>n meta rl sp1. populate_spell_metadata (new_spell n) meta = Inr sp1
                   \<Longrightarrow> P (populate_spell_rules sp1 rl)"
  shows "create_spell_dict spell_data ex = Inr ex' \<Longrightarrow> list_all (\<lambda>(k, sp). P sp) (spells ex)
         \<Longrightarrow> list_all (\<lambda>(k, sp). P sp) (spells ex')"
proof (induction spell_data ex rule: create_spell_dict.induct)
  case (1 ex)
  then show ?case by simp
next
  case (2 n info rest ex)
  from "2.prems"(1) obtain ex1 where r: "create_spell ex n info = Inr ex1"
    and d: "create_spell_dict rest ex1 = Inr ex'"
    by (auto split: sum.splits)
  have "list_all (\<lambda>(k, sp). P sp) (spells ex1)"
    using step r "2.prems"(2) by (rule create_spell_preserves)
  with "2.IH" [OF r d] show ?case by blast
qed

lemma create_spell_dict_keys:
  "create_spell_dict spell_data ex = Inr ex' \<Longrightarrow> distinct (map fst (spells ex))
   \<Longrightarrow> distinct (map fst (spells ex'))"
proof (induction spell_data ex rule: create_spell_dict.induct)
  case (1 ex)
  then show ?case by simp
next
  case (2 n info rest ex)
  from "2.prems"(1) obtain ex1 where r: "create_spell ex n info = Inr ex1"
    and d: "create_spell_dict rest ex1 = Inr ex'"
    by (auto split: sum.splits)
  from create_spell_keys [OF r "2.prems"(2)] "2.IH" [OF r d] show ?case by blast
qed

lemma created_spells:
  assumes "create_spell_dict spell_data SRD_5_Extractor = Inr ex0"
  shows "distinct (map fst (spells ex0))"
    and "list_all (\<lambda>(k, sp). classes sp = Some []) (spells ex0)"
    and "list_all (\<lambda>(k, sp). optional_fields_ok sp) (spells ex0)"
proof -
  show "distinct (map fst (spells ex0))"
    using assms by (rule create_spell_dict_keys) (simp add: SRD_5_Extractor_def)
  show "list_all (\<lambda>(k, sp). classes sp = Some []) (spells ex0)"
  proof (rule create_spell_dict_preserves [where P = "\<lambda>sp. classes sp = Some []", OF _ assms])
    show "classes (populate_spell_rules sp1 rl) = Some []"
      if "populate_spell_metadata (new_spell n) meta = Inr sp1" for n meta rl sp1
      using populate_classes [OF that] by (simp add: populate_spell_rules_fields new_spell_def)
    show "list_all (\<lambda>(k, sp). classes sp = Some []) (spells SRD_5_Extractor)"
      by (simp add: SRD_5_Extractor_def)
  qed
  show "list_all (\<lambda>(k, sp). optional_fields_ok sp) (spells ex0)"
  proof (rule create_spell_dict_preserves [where P = optional_fields_ok, OF _ assms])
    show "optional_fields_ok (populate_spell_rules sp1 rl)"
      if "populate_spell_metadata (new_spell n) meta = Inr sp1" for n meta rl sp1
      using populate_optional_fields [OF that]
      by (simp add: populate_spell_rules_fields new_spell_def Spell_def)
    show "list_all (\<lambda>(k, sp). optional_fields_ok sp) (spells SRD_5_Extractor)"
      by (simp add: SRD_5_Extractor_def)
  qed
qed

lemma parse_spells_result:
  assumes "create_spell_dict spell_data SRD_5_Extractor = Inr ex0"
  shows "parse_spells spell_data class_data
         = Inr (ex0\<lparr>spells := annotate (class_tokens class_data) (spells ex0)\<rparr>)"
proof -
  from created_spells(1,2) [OF assms] have "has_classes (spells ex0)"
    by (auto simp: has_classes_def list_all_iff)
  then show ?thesis
    using assms by (simp add: parse_spells_def add_class_info_def add_class_data_annotate)
qed

lemma annotated_classes:
  assumes "list_all (\<lambda>(k, sp). classes sp = Some []) sps" and "(k, sp) \<in> set (annotate f sps)"
  shows "classes sp = Some (f k)"
  using assms by (auto simp: annotate_def add_classes_def list_all_iff)

text \<open>
  Claim C9, as the code has it. After a batch has been parsed, \<open>add_class_info\<close>
  cannot fail and leaves the keys of the dictionary as they are; names in the class
  lists that are not keys change nothing. The class list of every record is the
  list of class names the record's name is listed under, one entry for every
  listing, in the order of the document; a class name is the class label up to its
  first space. A record that is listed nowhere has the empty list. Read as a set,
  the list is the set of the class names of the labels that list the record. (The
  claim has every class name at most once; the source appends to a list at every
  listing, so a name listed twice under labels with the same first word is there
  twice.)
\<close>

theorem class_list_annotation:
  assumes "create_spell_dict spell_data SRD_5_Extractor = Inr ex0"
  shows "\<exists>ex. parse_spells spell_data class_data = Inr ex
           \<and> map fst (spells ex) = map fst (spells ex0)
           \<and> (\<forall>(k, sp) \<in> set (spells ex). classes sp = Some (class_tokens class_data k))
           \<and> (\<forall>k. set (class_tokens class_data k)
                = {tok. \<exists>label sec l ns. (label, sec) \<in> set class_data \<and> (l, ns) \<in> set sec
                        \<and> k \<in> set ns \<and> tok = split_chr CHR '' '' label ! 0})"
proof (intro exI conjI)
  let ?ex = "ex0\<lparr>spells := annotate (class_tokens class_data) (spells ex0)\<rparr>"
  show "parse_spells spell_data class_data = Inr ?ex"
    using assms by (rule parse_spells_result)
  show "map fst (spells ?ex) = map fst (spells ex0)"
    by (simp add: annotate_keys)
  show "\<forall>(k, sp) \<in> set (spells ?ex). classes sp = Some (class_tokens class_data k)"
    using annotated_classes [OF created_spells(2) [OF assms]] by auto
  show "\<forall>k. set (class_tokens class_data k)
                = {tok. \<exists>label sec l ns. (label, sec) \<in> set class_data \<and> (l, ns) \<in> set sec
                        \<and> k \<in> set ns \<and> tok = split_chr CHR '' '' label ! 0}"
    by (simp add: set_class_tokens)
qed

theorem class_list_annotation_witness:
  "parse_spells [(''Dissonant Whispers'', Some good_content)]
     [(''Bard Spells'', [(''1st Level'', [''Dissonant Whispers'', ''Unknown Spell''])])]
   = Inr \<lparr>spells = [(''Dissonant Whispers'',
                      good_record ''Dissonant Whispers'' \<lparr>classes := Some [''Bard'']\<rparr>)],
          printed = []\<rparr>
   \<and> class_tokens [(''Bard Spells'', [(''1st Level'', [''Dissonant Whispers'', ''Unknown Spell''])])]
        ''Dissonant Whispers'' = [''Bard'']"
proof -
  have h: "create_spell_dict [(''Dissonant Whispers'', Some good_content)] SRD_5_Extractor
           = Inr \<lparr>spells = [(''Dissonant Whispers'', good_record ''Dissonant Whispers'')],
                  printed = []\<rparr>"
    unfolding good_content_def good_record_def by code_simp
  have e: "parse_spells [(''Dissonant Whispers'', Some good_content)]
             [(''Bard Spells'', [(''1st Level'', [''Dissonant Whispers'', ''Unknown Spell''])])]
           = Inr \<lparr>spells = [(''Dissonant Whispers'',
                      good_record ''Dissonant Whispers'' \<lparr>classes := Some [''Bard'']\<rparr>)],
                  printed = []\<rparr>"
    unfolding good_content_def good_record_def by code_simp
  have t: "class_tokens [(''Bard Spells'', [(''1st Level'', [''Dissonant Whispers'', ''Unknown Spell''])])]
             ''Dissonant Whispers'' = [''Bard'']"
    by code_simp
  from class_list_annotation [OF h,
      of "[(''Bard Spells'', [(''1st Level'', [''Dissonant Whispers'', ''Unknown Spell''])])]"]
  obtain ex where "parse_spells [(''Dissonant Whispers'', Some good_content)]
             [(''Bard Spells'', [(''1st Level'', [''Dissonant Whispers'', ''Unknown Spell''])])] = Inr ex"
    by blast
  with e t show ?thesis by simp
qed

theorem repeated_class_counterexample:
  "parse_spells [(''Dissonant Whispers'', Some good_content)]
     [(''Bard Spells'', [(''1st Level'', [''Dissonant Whispers'']),
                         (''2nd Level'', [''Dissonant Whispers''])])]
   = Inr \<lparr>spells = [(''Dissonant Whispers'',
                      good_record ''Dissonant Whispers'' \<lparr>classes := Some [''Bard'', ''Bard'']\<rparr>)],
          printed = []\<rparr>
   \<and> \<not> distinct [''Bard'', ''Bard'']"
proof
  show "parse_spells [(''Dissonant Whispers'', Some good_content)]
     [(''Bard Spells'', [(''1st Level'', [''Dissonant Whispers'']),
                         (''2nd Level'', [''Dissonant Whispers''])])]
   = Inr \<lparr>spells = [(''Dissonant Whispers'',
                      good_record ''Dissonant Whispers'' \<lparr>classes := Some [''Bard'', ''Bard'']\<rparr>)],
          printed = []\<rparr>"
    unfolding good_content_def good_record_def by code_simp
  show "\<not> distinct [''Bard'', ''Bard'']" by simp
qed

section \<open>Optional attributes and flags\<close>

text \<open>
  Claim C3, as the code has it. In every record of a parsed batch, a true
  \<open>material\<close> flag comes with a material text, and the material cost is present
  exactly when \<open>material_costly\<close> is true. (The claim also has a material text only
  when \<open>material\<close> is true; the source takes the text from any parenthesised clause
  of the components, whether or not the letter M precedes it.)
\<close>

theorem optional_fields:
  assumes "parse_spells spell_data class_data = Inr ex" and "(k, sp) \<in> set (spells ex)"
  shows "(material sp = Some True \<longrightarrow> material_text sp \<noteq> None)
         \<and> ((material_cost sp \<noteq> None) = (material_costly sp = Some True))"
proof -
  from assms(1) obtain ex0 where c: "create_spell_dict spell_data SRD_5_Extractor = Inr ex0"
    by (auto simp: parse_spells_def split: sum.splits)
  from parse_spells_result [OF c, of class_data] assms(1)
  have "spells ex = annotate (class_tokens class_data) (spells ex0)" by simp
  with assms(2) obtain sp0 where "(k, sp0) \<in> set (spells ex0)"
    and sp: "sp = add_classes (class_tokens class_data k) sp0"
    by (auto simp: annotate_def)
  with created_spells(3) [OF c] have "optional_fields_ok sp0"
    by (auto simp: list_all_iff)
  then show ?thesis
    by (simp add: sp add_classes_def optional_fields_ok_def)
qed

theorem optional_fields_witness:
  "material (diamond_record\<lparr>rules := Some []\<rparr>) = Some True
   \<and> material_text (diamond_record\<lparr>rules := Some []\<rparr>) \<noteq> None
   \<and> (material_cost (diamond_record\<lparr>rules := Some []\<rparr>) \<noteq> None)
     = (material_costly (diamond_record\<lparr>rules := Some []\<rparr>) = Some True)"
proof -
  have h: "parse_spells [(''Revive'', Some [NStr diamond_metadata])] []
           = Inr \<lparr>spells = [(''Revive'', diamond_record\<lparr>rules := Some []\<rparr>)], printed = []\<rparr>"
    unfolding diamond_metadata_def diamond_record_def by code_simp
  have m: "(''Revive'', diamond_record\<lparr>rules := Some []\<rparr>)
           \<in> set (spells \<lparr>spells = [(''Revive'', diamond_record\<lparr>rules := Some []\<rparr>)], printed = []\<rparr>)"
    by simp
  have t: "material (diamond_record\<lparr>rules := Some []\<rparr>) = Some True"
    by (simp add: diamond_record_def)
  from optional_fields [OF h m] t show ?thesis by blast
qed

theorem material_text_without_material_counterexample:
  "parse_spells [(''Fog'', Some focus_content)] []
     = Inr \<lparr>spells = [(''Fog'', focus_record ''Fog'')], printed = []\<rparr>
   \<and> material (focus_record ''Fog'') = Some False
   \<and> material_text (focus_record ''Fog'') = Some ''a focus''"
proof (intro conjI)
  show "parse_spells [(''Fog'', Some focus_content)] []
     = Inr \<lparr>spells = [(''Fog'', focus_record ''Fog'')], printed = []\<rparr>"
    unfolding focus_content_def focus_record_def by code_simp
  show "material (focus_record ''Fog'') = Some False"
    "material_text (focus_record ''Fog'') = Some ''a focus''"
    by (simp_all add: focus_record_def)
qed

section \<open>The emphasis-stripping pass\<close>

lemma rules_try_other: "c \<noteq> star \<Longrightarrow> 0 < k \<Longrightarrow> rules_try k (c # cs) = None"
  by (cases k) (simp_all add: rules_try_def)

lemma m_rules_formatted_other: "c \<noteq> star \<Longrightarrow> m_rules_formatted (c # cs) = None"
  by (simp add: m_rules_formatted_def rules_try_other)

lemma rules_sub_plain: "star \<notin> set t \<Longrightarrow> rules_sub_from 0 (t @ rest) = t @ rules_sub_from 0 rest"
  by (induction t) (auto simp: m_rules_formatted_other)

lemma rules_sub_no_star: "star \<notin> set s \<Longrightarrow> rules_formatted_sub s = s"
  using rules_sub_plain [of s "[]"] by (simp add: rules_formatted_sub_def)

lemma rules_sub_skip: "rules_sub_from k s = rules_sub_from 0 (drop k s)"
  by (induction k s rule: rules_sub_from.induct) simp_all

lemma body_run:
  assumes "star \<notin> set body" and "nl \<notin> set body"
  shows "takeWhile (\<lambda>c. c \<noteq> star \<and> c \<noteq> nl) (body @ star # rest) = body"
  using assms by (induction body) auto

lemma rules_try_emph:
  assumes "0 < k" and "body \<noteq> []" and "star \<notin> set body" and "nl \<notin> set body"
  shows "rules_try k (replicate k star @ body @ replicate k star @ rest)
         = Some (k + length body + k, body)"
proof -
  obtain k' where k: "k = Suc k'" using assms(1) by (cases k) auto
  have run: "takeWhile (\<lambda>c. c \<noteq> star \<and> c \<noteq> nl) (body @ replicate k star @ rest) = body"
    using body_run [OF assms(3,4)] by (simp add: k)
  show ?thesis
    using assms(2) by (simp add: rules_try_def run)
qed

lemma rules_try_more:
  assumes "k < j" and "body \<noteq> []" and "star \<notin> set body"
  shows "rules_try j (replicate k star @ body @ rest) = None"
proof -
  obtain b bs where b: "body = b # bs" using assms(2) by (cases body) auto
  from assms(3) b have "b \<noteq> star" by auto
  have "take j (replicate k star @ body @ rest) \<noteq> replicate j star"
  proof
    assume "take j (replicate k star @ body @ rest) = replicate j star"
    then have "(take j (replicate k star @ body @ rest)) ! k = replicate j star ! k" by simp
    with assms(1) b show False using \<open>b \<noteq> star\<close> by (simp add: nth_append)
  qed
  then show ?thesis by (simp add: rules_try_def Let_def)
qed

lemma rules_try_fewer:
  assumes "j < k"
  shows "rules_try j (replicate k star @ rest) = None"
proof -
  have "drop j (replicate k star @ rest) = star # replicate (k - j - 1) star @ rest"
    using assms by (simp add: replicate_append_same flip: replicate_Suc)
  then show ?thesis by (simp add: rules_try_def Let_def)
qed


lemma m_rules_emph:
  assumes "well_formed (Emph k body)"
  shows "m_rules_formatted (replicate k star @ body @ replicate k star @ rest)
         = Some (k + length body + k, body)"
proof -
  from assms have k: "k = 1 \<or> k = 2 \<or> k = 3" and b: "body \<noteq> []" "star \<notin> set body" "nl \<notin> set body"
    by auto
  from k show ?thesis
  proof (elim disjE)
    assume "k = 1"
    then show ?thesis
      using rules_try_more [of 1 3 body "replicate 1 star @ rest"]
        rules_try_more [of 1 2 body "replicate 1 star @ rest"]
        rules_try_emph [of 1 body rest] b
      by (simp add: m_rules_formatted_def)
  next
    assume "k = 2"
    then show ?thesis
      using rules_try_more [of 2 3 body "replicate 2 star @ rest"]
        rules_try_emph [of 2 body rest] b
      by (simp add: m_rules_formatted_def)
  next
    assume "k = 3"
    then show ?thesis
      using rules_try_emph [of 3 body rest] b
      by (simp add: m_rules_formatted_def)
  qed
qed

lemma rules_sub_emph:
  assumes "well_formed (Emph k body)"
  shows "rules_sub_from 0 (span_source (Emph k body) @ rest) = body @ rules_sub_from 0 rest"
proof -
  from assms obtain k' where k: "k = Suc k'" by (cases k) auto
  let ?cs = "replicate k' star @ body @ replicate k star @ rest"
  have s: "span_source (Emph k body) @ rest = star # ?cs" by (simp add: k)
  have m: "m_rules_formatted (star # ?cs) = Some (k + length body + k, body)"
    using m_rules_emph [OF assms, of rest] by (simp add: k)
  have "rules_sub_from 0 (star # ?cs) = body @ rules_sub_from (k + length body + k - 1) ?cs"
    by (simp add: m)
  also have "rules_sub_from (k + length body + k - 1) ?cs
             = rules_sub_from 0 (drop (k + length body + k - 1) ?cs)"
    by (rule rules_sub_skip)
  also have "drop (k + length body + k - 1) ?cs = rest" by (simp add: k)
  finally show ?thesis by (simp only: s)
qed

lemma rules_sub_spans:
  "list_all well_formed spans \<Longrightarrow>
   rules_sub_from 0 (concat (map span_source spans) @ rest)
   = concat (map span_text spans) @ rules_sub_from 0 rest"
proof (induction spans)
  case Nil
  then show ?case by simp
next
  case (Cons sp spans)
  show ?case
  proof (cases sp)
    case (Plain t)
    with Cons show ?thesis by (simp add: rules_sub_plain)
  next
    case (Emph k body)
    with Cons.prems have "well_formed (Emph k body)" by simp
    from rules_sub_emph [OF this, of "concat (map span_source spans) @ rest"] Cons Emph
    show ?thesis by simp
  qed
qed

lemma well_formed_stripped:
  assumes "list_all well_formed spans"
  shows "rules_formatted_sub (concat (map span_source spans)) = concat (map span_text spans)"
    and "star \<notin> set (concat (map span_text spans))"
proof -
  show "rules_formatted_sub (concat (map span_source spans)) = concat (map span_text spans)"
    using rules_sub_spans [OF assms, of "[]"] by (simp add: rules_formatted_sub_def)
  show "star \<notin> set (concat (map span_text spans))"
    using assms
  proof (induction spans)
    case Nil
    then show ?case by simp
  next
    case (Cons sp spans)
    then show ?case by (cases sp) auto
  qed
qed

text \<open>
  Claim C6, as the code has it. A second pass changes nothing whenever the first
  pass has left no emphasis character, and that is the case for every text whose
  emphasis is well formed: the pass then returns the text of the spans, delimiters
  removed. (The claim has the pass idempotent on every string; on text such as
  \<open>**a*b*\<close> the first pass removes the inner pair only and brings the outer
  characters together, so that a second pass finds a new match.)
\<close>

theorem strip_idempotent_when_clean:
  "(star \<notin> set (rules_formatted_sub s) \<longrightarrow>
      rules_formatted_sub (rules_formatted_sub s) = rules_formatted_sub s)
   \<and> (list_all well_formed spans \<longrightarrow>
        rules_formatted_sub (concat (map span_source spans)) = concat (map span_text spans)
        \<and> rules_formatted_sub (rules_formatted_sub (concat (map span_source spans)))
          = rules_formatted_sub (concat (map span_source spans)))"
proof (intro conjI impI)
  show "rules_formatted_sub (rules_formatted_sub s) = rules_formatted_sub s"
    if "star \<notin> set (rules_formatted_sub s)"
    using that by (rule rules_sub_no_star)
  assume w: "list_all well_formed spans"
  show "rules_formatted_sub (concat (map span_source spans)) = concat (map span_text spans)"
    using w by (rule well_formed_stripped)
  show "rules_formatted_sub (rules_formatted_sub (concat (map span_source spans)))
        = rules_formatted_sub (concat (map span_source spans))"
    using well_formed_stripped [OF w] by (simp add: rules_sub_no_star)
qed

theorem strip_idempotent_when_clean_witness:
  "rules_formatted_sub ''**Bold** and *italic* text'' = ''Bold and italic text''
   \<and> rules_formatted_sub (rules_formatted_sub ''**Bold** and *italic* text'')
     = rules_formatted_sub ''**Bold** and *italic* text''"
proof -
  have e: "rules_formatted_sub ''**Bold** and *italic* text'' = ''Bold and italic text''"
    by code_simp
  have c: "star \<notin> set ''Bold and italic text''" by (simp add: star_def)
  have w: "list_all well_formed [Emph 2 ''Bold'', Plain '' and '', Emph 1 ''italic'', Plain '' text'']"
    by (simp add: star_def nl_def)
  have src: "concat (map span_source [Emph 2 ''Bold'', Plain '' and '', Emph 1 ''italic'', Plain '' text''])
             = ''**Bold** and *italic* text''"
    by (simp add: star_def eval_nat_numeral)
  from strip_idempotent_when_clean [of "''**Bold** and *italic* text''"
      "[Emph 2 ''Bold'', Plain '' and '', Emph 1 ''italic'', Plain '' text'']"] c w
  show ?thesis
    unfolding src e by simp
qed

theorem strip_twice_counterexample:
  "rules_formatted_sub ''**a*b*'' = ''*ab*''
   \<and> rules_formatted_sub (rules_formatted_sub ''**a*b*'') = ''ab''"
  by code_simp

section \<open>CSV rows and records\<close>

lemma py_strip_id:
  assumes "s \<noteq> []" and "\<not> is_space (hd s)" and "\<not> is_space (last s)"
  shows "py_strip s = s"
proof -
  have 1: "dropWhile is_space s = s"
    using assms(1,2) by (cases s) simp_all
  have 2: "dropWhile is_space (rev s) = rev s"
    using assms(1,3) by (cases "rev s") (simp_all add: last_rev [symmetric] del: last_rev)
  show ?thesis by (simp add: py_strip_def 1 2)
qed

lemma digit_not_space: "is_digit c \<Longrightarrow> \<not> is_space c"
  by (auto simp: is_digit_def is_space_def)

lemma digit_not_special: "is_digit c \<Longrightarrow> c \<noteq> CHR ''_'' \<and> c \<noteq> CHR ''-'' \<and> c \<noteq> CHR ''+''"
  by (auto simp: is_digit_def)

lemma contains_needs_member: "contains (a # as) s \<Longrightarrow> a \<in> set s"
  by (induction s) (auto simp: starts_with_def)

lemma valid_digits_all:
  assumes "ds \<noteq> []" and "list_all is_digit ds"
  shows "valid_digits ds" and "filter (\<lambda>c. c \<noteq> CHR ''_'') ds = ds"
    and "\<not> is_space (hd ds)" and "\<not> is_space (last ds)" and "hd ds \<noteq> CHR ''-''" and "hd ds \<noteq> CHR ''+''"
proof -
  from assms have h: "is_digit (hd ds)" and l: "is_digit (last ds)"
    by (auto simp: list_all_iff)
  from assms(2) have u: "CHR ''_'' \<notin> set ds"
    by (auto simp: list_all_iff dest: digit_not_special)
  then have "\<not> contains ''__'' ds" by (auto dest: contains_needs_member)
  with assms h l show "valid_digits ds"
    by (auto simp: valid_digits_def list_all_iff)
  from u show "filter (\<lambda>c. c \<noteq> CHR ''_'') ds = ds"
    by (auto simp: filter_id_conv)
  from h l show "\<not> is_space (hd ds)" "\<not> is_space (last ds)" "hd ds \<noteq> CHR ''-''" "hd ds \<noteq> CHR ''+''"
    by (auto dest: digit_not_space digit_not_special)
qed

lemma py_int_str_nat: "py_int (str_nat n) = Inr (int n)"
proof -
  note d = str_nat_digits [of n]
  note v = valid_digits_all [OF d [THEN conjunct1] d [THEN conjunct2]]
  have s: "py_strip (str_nat n) = str_nat n"
    using d v(3,4) by (intro py_strip_id) simp_all
  have st: "\<not> starts_with ''-'' (str_nat n)" "\<not> starts_with ''+'' (str_nat n)"
    using d v(5,6) by (cases "str_nat n"; simp add: starts_with_def)+
  show ?thesis
    by (simp add: py_int_def s st v(1,2) nat_of_digits_str_nat)
qed

lemma py_int_str_int: "py_int (str_int i) = Inr i"
proof (cases "i < 0")
  case False
  then show ?thesis by (simp add: str_int_def py_int_str_nat)
next
  case True
  let ?ds = "str_nat (nat (- i))"
  note d = str_nat_digits [of "nat (- i)"]
  note v = valid_digits_all [OF d [THEN conjunct1] d [THEN conjunct2]]
  have s: "py_strip (CHR ''-'' # ?ds) = CHR ''-'' # ?ds"
    using d v(4) by (intro py_strip_id) (simp_all add: is_space_def)
  show ?thesis
    using True by (simp add: str_int_def py_int_def s starts_with_def v(1,2) nat_of_digits_str_nat)
qed

lemma split_piece:
  assumes "\<not> contains '', '' x"
  shows "split_from 0 '', '' cur (x @ '', '' @ rest) = (cur @ x) # split_from 0 '', '' [] rest"
  using assms
proof (induction x arbitrary: cur)
  case Nil
  show ?case by (simp add: starts_with_def)
next
  case (Cons c x)
  from Cons.prems have n: "\<not> starts_with '', '' (c # x)" and r: "\<not> contains '', '' x"
    by simp_all
  from n have "\<not> starts_with '', '' (c # x @ '', '' @ rest)"
    by (cases x) (auto simp: starts_with_def)
  with Cons.IH [OF r] show ?case by simp
qed

lemma split_last:
  assumes "\<not> contains '', '' x"
  shows "split_from 0 '', '' cur x = [cur @ x]"
  using assms
proof (induction x arbitrary: cur)
  case Nil
  show ?case by simp
next
  case (Cons c x)
  from Cons.prems have n: "\<not> starts_with '', '' (c # x)" and r: "\<not> contains '', '' x"
    by simp_all
  with Cons.IH [OF r] show ?case by simp
qed

lemma split_join_from:
  assumes "cs \<noteq> []" and "list_all (\<lambda>c. \<not> contains '', '' c) cs"
  shows "split_from 0 '', '' cur (py_join '', '' cs) = (cur @ hd cs) # tl cs"
  using assms
proof (induction cs arbitrary: cur)
  case Nil
  then show ?case by simp
next
  case (Cons x rest)
  show ?case
  proof (cases rest)
    case Nil
    with Cons.prems show ?thesis by (simp add: split_last)
  next
    case (Cons y ys)
    with Cons.prems have "split_from 0 '', '' [] (py_join '', '' rest) = hd rest # tl rest"
      using Cons.IH [of "[]"] by simp
    with Cons Cons.prems show ?thesis
      using split_piece [of x cur "py_join '', '' (y # ys)"] by simp
  qed
qed

lemma split_join:
  assumes "cs \<noteq> []" and "list_all (\<lambda>c. \<not> contains '', '' c) cs"
  shows "py_split '', '' (py_join '', '' cs) = cs"
  using split_join_from [OF assms, of "[]"] assms(1) by (simp add: py_split_def)

lemma getattr_Some: "getattr (Some v) d = v"
  by (simp add: getattr_def)

lemma yes_no_back: "(yes_no (Some b) = ''yes'') = b"
  by (simp add: yes_no_def getattr_def)


lemma from_csv_material_back:
  assumes "(mtext \<noteq> None) = mat"
    and "case mcost of None \<Rightarrow> True | Some cost \<Rightarrow> cost \<noteq> [] \<and> mat"
    and "material sp = Some mat" and "material_text sp = None" and "material_cost sp = None"
  shows "from_csv_material sp
           [(''level'', a1), (''name'', a2), (''school'', a3), (''classes'', a4), (''range'', a5),
            (''cast_time'', a6), (''duration'', a7), (''concentration'', a8), (''ritual'', a9),
            (''verbal'', a10), (''somatic'', a11), (''material'', a12), (''material_costly'', a13),
            (''material_consumed'', a14), (''material_text'', getattr mtext []),
            (''material_cost'', getattr mcost []), (''rules'', a17), (''source'', a18)]
         = Inr (sp\<lparr>material_text := mtext, material_cost := mcost\<rparr>)"
  using assms
  by (cases mtext; cases mcost)
     (auto simp: from_csv_material_def sum_bind_def row_get_def getattr_def)

text \<open>
  Where the round trip holds. Writing a record to a CSV row and reading the row into
  a fresh \<open>Spell\<close> gives the record back when every attribute but the two optional
  ones is present, the class list is not empty and none of its names holds a comma
  followed by a space, the material text is present exactly when \<open>material\<close> is true,
  and a material cost, when present, is not empty and goes with a true \<open>material\<close>.
\<close>

lemma csv_round_trip:
  assumes "csv_faithful sp"
  shows "from_csv_dict Spell (to_csv_dict sp) = Inr sp"
proof -
  obtain nm lv rl sch cls ct rng dur conc rit vb som mat costly consumed mtext mcost src
    where sp: "sp = \<lparr>name = nm, level = lv, rules = rl, school = sch, classes = cls,
       cast_time = ct, spell_range = rng, duration = dur, concentration = conc, ritual = rit,
       verbal = vb, somatic = som, material = mat, material_costly = costly,
       material_consumed = consumed, material_text = mtext, material_cost = mcost, source = src\<rparr>"
    by (cases sp) auto
  from assms obtain nm' where nm: "nm = Some nm'" by (auto simp: sp csv_faithful_def)
  from assms obtain lv' where lv: "lv = Some lv'" by (auto simp: sp csv_faithful_def)
  from assms obtain rl' where rl: "rl = Some rl'" by (auto simp: sp csv_faithful_def)
  from assms obtain sch' where sch: "sch = Some sch'" by (auto simp: sp csv_faithful_def)
  from assms obtain ct' where ct: "ct = Some ct'" by (auto simp: sp csv_faithful_def)
  from assms obtain rng' where rng: "rng = Some rng'" by (auto simp: sp csv_faithful_def)
  from assms obtain dur' where dur: "dur = Some dur'" by (auto simp: sp csv_faithful_def)
  from assms obtain conc' where conc: "conc = Some conc'" by (auto simp: sp csv_faithful_def)
  from assms obtain rit' where rit: "rit = Some rit'" by (auto simp: sp csv_faithful_def)
  from assms obtain vb' where vb: "vb = Some vb'" by (auto simp: sp csv_faithful_def)
  from assms obtain som' where som: "som = Some som'" by (auto simp: sp csv_faithful_def)
  from assms obtain mat' where mat: "mat = Some mat'" by (auto simp: sp csv_faithful_def)
  from assms obtain costly' where costly: "costly = Some costly'" by (auto simp: sp csv_faithful_def)
  from assms obtain consumed' where consumed: "consumed = Some consumed'"
    by (auto simp: sp csv_faithful_def)
  from assms obtain src' where src: "src = Some src'" by (auto simp: sp csv_faithful_def)
  from assms obtain cls' where cls: "cls = Some cls'"
    and c: "cls' \<noteq> []" "list_all (\<lambda>c. \<not> contains '', '' c) cls'"
    by (auto simp: sp csv_faithful_def split: option.splits)
  note v = nm lv rl sch ct rng dur conc rit vb som mat costly consumed src cls
  from assms have m: "(mtext \<noteq> None) = mat'"
    "case mcost of None \<Rightarrow> True | Some cost \<Rightarrow> cost \<noteq> [] \<and> mat'"
    unfolding sp v csv_faithful_def by (auto split: option.splits)
  show ?thesis
    unfolding sp v to_csv_dict_def from_csv_dict_def
    by (simp add: sum_bind_def row_get_def getattr_Some yes_no_back py_int_str_int
        split_join [OF c] Spell_def from_csv_material_back [OF m])
qed

lemma csv_round_trip_example:
  "from_csv_dict Spell
     (to_csv_dict (diamond_record\<lparr>rules := Some ''Life returns.'', classes := Some [''Blood Hunter'', ''Cleric'']\<rparr>))
   = Inr (diamond_record\<lparr>rules := Some ''Life returns.'', classes := Some [''Blood Hunter'', ''Cleric'']\<rparr>)"
proof -
  have n: "\<not> contains '', '' ''Blood Hunter''" "\<not> contains '', '' ''Cleric''"
    by code_simp+
  have h: "csv_faithful
             (diamond_record\<lparr>rules := Some ''Life returns.'', classes := Some [''Blood Hunter'', ''Cleric'']\<rparr>)"
    using n by (simp add: csv_faithful_def diamond_record_def)
  from csv_round_trip [OF h] show ?thesis .
qed

text \<open>
  Claim C7, at a record whose class list is empty. The claim has the round trip
  reproduce every record, those with an empty class list in particular.
  \<open>to_csv_dict\<close> writes the empty list as the empty string (\<open>', '.join([])\<close>), and
  \<open>from_csv_dict\<close> reads the empty string as the list of one empty name
  (\<open>''.split(', ')\<close>): the record read back differs from the record written in its
  class list, and in nothing else.
\<close>

theorem empty_classes_not_restored:
  "classes (diamond_record\<lparr>rules := Some ''Life returns.''\<rparr>) = Some []
   \<and> map_of (to_csv_dict (diamond_record\<lparr>rules := Some ''Life returns.''\<rparr>)) ''classes'' = Some []
   \<and> py_split '', '' [] = [[]]
   \<and> from_csv_dict Spell (to_csv_dict (diamond_record\<lparr>rules := Some ''Life returns.''\<rparr>))
       = Inr (diamond_record\<lparr>rules := Some ''Life returns.'', classes := Some [[]]\<rparr>)
   \<and> from_csv_dict Spell (to_csv_dict (diamond_record\<lparr>rules := Some ''Life returns.''\<rparr>))
       \<noteq> Inr (diamond_record\<lparr>rules := Some ''Life returns.''\<rparr>)"
proof -
  have w: "from_csv_dict Spell (to_csv_dict (diamond_record\<lparr>rules := Some ''Life returns.''\<rparr>))
     = Inr (diamond_record\<lparr>rules := Some ''Life returns.'', classes := Some [[]]\<rparr>)"
    unfolding diamond_record_def by code_simp
  have c: "classes (diamond_record\<lparr>rules := Some ''Life returns.''\<rparr>) = Some []"
    by (simp add: diamond_record_def)
  have r: "map_of (to_csv_dict (diamond_record\<lparr>rules := Some ''Life returns.''\<rparr>)) ''classes'' = Some []"
    unfolding diamond_record_def by code_simp
  have e: "py_split '', '' [] = [[]]"
    by code_simp
  have d: "diamond_record\<lparr>rules := Some ''Life returns.'', classes := Some [[]]\<rparr>
     \<noteq> diamond_record\<lparr>rules := Some ''Life returns.''\<rparr>"
    by (simp add: diamond_record_def)
  from w c r e d show ?thesis by simp
qed

end
